theory Spec2Isabelle
  imports Complex_Main
begin

section \<open>Errors and array primitives\<close>

text \<open>
  The sources are Python with numpy. Floats are modelled as reals, one-dimensional float
  arrays as \<open>real list\<close>, two-dimensional ones as the list of their rows. Every raise of
  the source is a value \<open>Inl e\<close> of the result type \<open>error + 'a\<close>.
\<close>

datatype error = Exception string | IndexError | ValueError | ZeroDivisionError

definition ebind :: "error + 'a \<Rightarrow> ('a \<Rightarrow> error + 'b) \<Rightarrow> error + 'b" where
  "ebind m f = (case m of Inl e \<Rightarrow> Inl e | Inr v \<Rightarrow> f v)"

text \<open>Python indexing: a negative index counts from the end, out of range raises.\<close>

definition py_index :: "nat \<Rightarrow> int \<Rightarrow> error + nat" where
  "py_index n i =
     (let j = (if i < 0 then int n + i else i)
      in if 0 \<le> j \<and> j < int n then Inr (nat j) else Inl IndexError)"

definition get_item :: "'a list \<Rightarrow> int \<Rightarrow> error + 'a" where
  "get_item xs i = ebind (py_index (length xs) i) (\<lambda>k. Inr (xs ! k))"

definition set_item :: "'a list \<Rightarrow> int \<Rightarrow> 'a \<Rightarrow> error + 'a list" where
  "set_item xs i v = ebind (py_index (length xs) i) (\<lambda>k. Inr (xs[k := v]))"

definition get_item2 :: "real list list \<Rightarrow> int \<Rightarrow> int \<Rightarrow> error + real" where
  "get_item2 m i j = ebind (get_item m i) (\<lambda>row. get_item row j)"

definition set_item2 :: "real list list \<Rightarrow> int \<Rightarrow> int \<Rightarrow> real \<Rightarrow> error + real list list" where
  "set_item2 m i j v =
     ebind (py_index (length m) i) (\<lambda>k.
     ebind (set_item (m ! k) j v) (\<lambda>row. Inr (m[k := row])))"

text \<open>
  \<open>np.linspace(start, stop, num)\<close>: \<open>num\<close> points with step
  \<open>(stop - start) / (num - 1)\<close>; for \<open>num = 1\<close> the single point \<open>start\<close>.
\<close>

definition linspace :: "real \<Rightarrow> real \<Rightarrow> nat \<Rightarrow> real list" where
  "linspace start stop num =
     map (\<lambda>i. start + real i * ((stop - start) / real (num - 1))) [0..<num]"

definition zeros :: "nat \<Rightarrow> real list" where
  "zeros n = replicate n 0"

definition zeros2 :: "nat \<Rightarrow> nat \<Rightarrow> real list list" where
  "zeros2 r c = replicate r (zeros c)"

definition eye :: "nat \<Rightarrow> real list list" where
  "eye n = map (\<lambda>i. map (\<lambda>j. if i = j then 1 else 0) [0..<n]) [0..<n]"


text \<open>
  numpy broadcasting, for one-dimensional operands: lengths agree, or the operand of
  length one is repeated; anything else raises ValueError.
\<close>

definition broadcast_to :: "real list \<Rightarrow> nat \<Rightarrow> error + real list" where
  "broadcast_to v n =
     (if length v = n then Inr v
      else if length v = 1 then Inr (replicate n (v ! 0))
      else Inl ValueError)"

definition np_sub :: "real list \<Rightarrow> real list \<Rightarrow> error + real list" where
  "np_sub xs ys =
     (let n = (if length xs = 1 then length ys else length xs) in
      ebind (broadcast_to xs n) (\<lambda>xs'.
      ebind (broadcast_to ys n) (\<lambda>ys'. Inr (map2 (-) xs' ys'))))"



text \<open>\<open>xs[lo:hi] = v\<close>: the slice is clipped to the array, the value is broadcast to it.\<close>

definition set_slice :: "real list \<Rightarrow> nat \<Rightarrow> nat \<Rightarrow> real list \<Rightarrow> error + real list" where
  "set_slice xs lo hi v =
     (let a = min lo (length xs); b = max a (min hi (length xs)) in
      ebind (broadcast_to v (b - a)) (\<lambda>v'. Inr (take a xs @ v' @ drop b xs)))"

text \<open>
  \<open>m[r0:r1, c0:c1] = blk\<close> for a block none of whose dimensions is one (the source only
  assigns \<open>np.eye(2)\<close>): the clipped target must have the shape of the block.
\<close>

definition set_block ::
  "real list list \<Rightarrow> nat \<Rightarrow> nat \<Rightarrow> nat \<Rightarrow> nat \<Rightarrow> real list list \<Rightarrow> error + real list list" where
  "set_block m r0 r1 c0 c1 blk =
     (let a = min r0 (length m); b = max a (min r1 (length m));
          rows = take (b - a) (drop a m)
      in if length blk = b - a \<and>
            list_all2 (\<lambda>row brow. length brow = max (min c0 (length row)) (min c1 (length row)) - min c0 (length row)) rows blk
         then Inr (take a m @
                   map2 (\<lambda>row brow. take (min c0 (length row)) row @ brow @
                                      drop (max (min c0 (length row)) (min c1 (length row))) row) rows blk
                   @ drop b m)
         else Inl ValueError)"

section \<open>The Zermelo problem: src/Zermelo/ZermeloPrimalOCP.py\<close>

record ZermeloPrimalOCP =
  self_a :: real
  self_b :: real
  self_a1 :: real
  self_a2 :: real
  self_r :: real
  self_xfinal :: "real list"
  self_x0 :: "real list"
  self_phi0 :: real
  self_theta0 :: real
  self_gamma0 :: real
  self_psi0 :: real
  self_center :: "real list"
  self_u1max :: real
  self_u1min :: real
  self_u0max :: real
  self_u0min :: real
  self_eps :: real

text \<open>The constructor \<open>__init__\<close>.\<close>

definition init_ZermeloPrimalOCP :: ZermeloPrimalOCP where
  "init_ZermeloPrimalOCP =
     (let xfinal = [20, 1] in
      \<lparr> self_a = 0, self_b = 1, self_a1 = 2, self_a2 = 1 / 10, self_r = 2,
        self_xfinal = xfinal, self_x0 = replicate 2 0,
        self_phi0 = 0, self_theta0 = 0, self_gamma0 = - 1, self_psi0 = 90,
        self_center = [xfinal ! 0 / 2, xfinal ! 1 / (5 / 2)],
        self_u1max = 1, self_u1min = 0, self_u0max = pi * 2, self_u0min = 0,
        self_eps = 1 \<rparr>)"

definition set_eps :: "ZermeloPrimalOCP \<Rightarrow> real \<Rightarrow> ZermeloPrimalOCP" where
  "set_eps self e = self\<lparr>self_eps := e\<rparr>"


definition h :: "ZermeloPrimalOCP \<Rightarrow> real \<Rightarrow> int \<Rightarrow> real" where
  "h self x1 d =
     (if d = 0 then 3 + (2 / 10) * x1 * (1 - x1)
      else if d = 1 then 2 / 10 - (4 / 10) * x1
      else if d = 2 then - 4
      else 0)"

definition state_constraint :: "ZermeloPrimalOCP \<Rightarrow> real \<Rightarrow> real \<Rightarrow> int \<Rightarrow> int \<Rightarrow> real" where
  "state_constraint self x0 x1 dx0 dx1 =
     (if dx0 = 0 \<and> dx1 = 0 then
        - ((x0 - self_center self ! 0) ^ 2) / self_a1 self ^ 2
        - (x1 - self_center self ! 1) ^ 2 / self_a2 self ^ 2 + self_r self ^ 2
      else if dx0 = 1 \<and> dx1 = 0 then
        - 2 * (x0 - self_center self ! 0 / 2) / self_a1 self ^ 2
      else if dx0 = 0 \<and> dx1 = 1 then
        - 2 * (x1 - self_center self ! 1 / (5 / 2)) / self_a2 self ^ 2
      else if dx0 = 2 \<and> dx1 = 0 then - 2 / self_a1 self ^ 2
      else if dx0 = 0 \<and> dx1 = 2 then - 2 / self_a2 self ^ 2
      else 0)"

definition twobc ::
  "ZermeloPrimalOCP \<Rightarrow> real list \<Rightarrow> real list \<Rightarrow> real list \<Rightarrow> real list \<Rightarrow> error + real list" where
  "twobc self xp0 xpT z0 zT =
     (let bc = zeros (length xp0) in
      ebind (np_sub (take 2 xp0) (self_x0 self)) (\<lambda>d0.
      ebind (set_slice bc 0 2 d0) (\<lambda>bc.
      ebind (np_sub (take 2 xpT) (self_xfinal self)) (\<lambda>dT.
      ebind (set_slice bc 2 4 dT) (\<lambda>bc.
      ebind (get_item xp0 (- 1)) (\<lambda>l0.
      ebind (set_item bc 4 l0) (\<lambda>bc.
      ebind (get_item xpT (- 1)) (\<lambda>lT.
      set_item bc 5 (lT - 1)))))))))"

definition bcjac ::
  "ZermeloPrimalOCP \<Rightarrow> real list \<Rightarrow> real list \<Rightarrow> real list \<Rightarrow> real list \<Rightarrow>
     error + (real list list \<times> real list list \<times> real list list \<times> real list list)" where
  "bcjac self xp0 xpT z0 zT =
     (let gx0 = zeros2 (length xp0) (length xp0) in
      ebind (set_block gx0 0 2 0 2 (eye 2)) (\<lambda>gx0.
      ebind (set_item2 gx0 4 (- 1) 1) (\<lambda>gx0.
      let gxT = zeros2 (length xpT) (length xpT) in
      ebind (set_block gxT 2 4 0 2 (eye 2)) (\<lambda>gxT.
      ebind (set_item2 gxT 5 (- 1) 1) (\<lambda>gxT.
      let gz0 = zeros2 (length xp0) (length z0);
          gzT = gz0
      in Inr (gx0, gxT, gz0, gzT))))))"

section \<open>The continuation driver: src/python/main_goddard_primal_dual_casadi.py\<close>

subsection \<open>What the driver imports\<close>

text \<open>
  Modelled from the spec: the class \<open>GoddardPrimalDual\<close> is not among the sources. The
  Problem Contract exposes a continuation parameter that is mutable between continuation
  steps; \<open>set_eps\<close> stores it, as the method of the same name of \<open>ZermeloPrimalOCP\<close> does.
\<close>

record GoddardPrimalDual =
  ocp_eps :: real

definition ocp_set_eps :: "GoddardPrimalDual \<Rightarrow> real \<Rightarrow> GoddardPrimalDual" where
  "ocp_set_eps self e = self\<lparr>ocp_eps := e\<rparr>"

text \<open>\<open>BVPSol\<close> holds a trajectory; the driver reads its attributes \<open>time\<close>, \<open>xp\<close>, \<open>z\<close>.\<close>

record BVPSol =
  bvp_time :: "real list"
  bvp_xp :: "real list list"
  bvp_z :: "real list list"

text \<open>The record returned next to the trajectory; the driver reads \<open>success\<close> only.\<close>

record infos =
  success :: bool

record options =
  control_odes_error :: bool
  display :: int
  res_tol :: real

text \<open>
  The collaborators of the driver are parameters of the model: the constructor and the
  \<open>initialize\<close> and \<open>dyn_press\<close> methods of the contract, the \<open>solve\<close> method of a
  \<open>BVPDAE\<close> built from the options, and the timer, given as the reading of its
  \<open>k\<close>-th call.
\<close>

record env =
  new_ocp :: GoddardPrimalDual
  ocp_initialize :: "real list \<times> real list list \<times> real list list"
  dyn_press :: "real list \<Rightarrow> real list \<Rightarrow> real list"
  solve :: "options \<Rightarrow> BVPSol \<Rightarrow> GoddardPrimalDual \<Rightarrow> BVPSol \<times> infos"
  dtime :: "nat \<Rightarrow> real"

subsection \<open>Values written to disk\<close>

datatype pyval =
    PyFloat real
  | PyInt int
  | Array1 "real list"
  | Array2 "real list list"
  | List1 "real list"
  | List2 "real list list"
  | PyDict "(string \<times> pyval) list"

subsection \<open>State\<close>

text \<open>
  What survives an exception: the number of timer readings taken, the calls made to the
  solver (the trajectory and the contract passed, in order) and the documents written
  (path and content, in order).
\<close>

record world =
  clock :: nat
  calls :: "(BVPSol \<times> GoddardPrimalDual) list"
  files :: "(string \<times> pyval) list"

text \<open>The twelve lists of line 43, filled for the plots.\<close>

record sequences =
  times_seq :: "real list list"
  hs :: "real list list"
  vs :: "real list list"
  ms :: "real list list"
  us :: "real list list"
  p1s :: "real list list"
  p2s :: "real list list"
  p3s :: "real list list"
  mus :: "real list list"
  nups :: "real list list"
  nums :: "real list list"
  qs :: "real list list"

text \<open>The local variables of \<open>main_primal_dual\<close>; an exception discards them.\<close>

record locals =
  cumul_time :: real
  eps :: real
  alpha :: real
  tol :: real
  ocp :: GoddardPrimalDual
  time :: "real list"
  xp :: "real list list"
  z :: "real list list"
  bvp_sol :: BVPSol
  convergence :: bool
  iter :: int
  seqs :: sequences

subsection \<open>The code\<close>

definition driver_options :: options where
  "driver_options = \<lparr> control_odes_error = True, display = 1, res_tol = 1 / 10 ^ 6 \<rparr>"

text \<open>Lines 30 to 43.\<close>

definition start :: "env \<Rightarrow> locals" where
  "start env =
     (let eps0 = 1;
          ocp0 = ocp_set_eps (new_ocp env) eps0;
          (time0, xp0, z0) = ocp_initialize env
      in \<lparr> cumul_time = 0, eps = eps0, alpha = 5 / 10, tol = 1 / 10 ^ 10,
           ocp = ocp0, time = time0, xp = xp0, z = z0,
           bvp_sol = \<lparr> bvp_time = time0, bvp_xp = xp0, bvp_z = z0 \<rparr>,
           convergence = False, iter = 0,
           seqs = \<lparr> times_seq = [], hs = [], vs = [], ms = [], us = [], p1s = [],
                    p2s = [], p3s = [], mus = [], nups = [], nums = [], qs = [] \<rparr> \<rparr>)"

definition world0 :: world where
  "world0 = \<lparr> clock = 0, calls = [], files = [] \<rparr>"

text \<open>Lines 58 to 69: one entry more in each list; a missing row raises IndexError.\<close>

definition append_sequences :: "env \<Rightarrow> locals \<Rightarrow> error + sequences" where
  "append_sequences env s =
     (let q = seqs s in
      ebind (get_item2 (xp s) 3 0) (\<lambda>tf.
      let q = q\<lparr>times_seq := times_seq q @ [map (\<lambda>t. tf * t) (time s)]\<rparr> in
      ebind (get_item (xp s) 0) (\<lambda>r.
      let q = q\<lparr>hs := hs q @ [r]\<rparr> in
      ebind (get_item (xp s) 1) (\<lambda>r.
      let q = q\<lparr>vs := vs q @ [r]\<rparr> in
      ebind (get_item (xp s) 2) (\<lambda>r.
      let q = q\<lparr>ms := ms q @ [r]\<rparr> in
      ebind (get_item (xp s) 0) (\<lambda>r0.
      ebind (get_item (xp s) 1) (\<lambda>r1.
      let q = q\<lparr>qs := qs q @ [dyn_press env r0 r1]\<rparr> in
      ebind (get_item (z s) 0) (\<lambda>r.
      let q = q\<lparr>us := us q @ [r]\<rparr> in
      ebind (get_item (xp s) 4) (\<lambda>r.
      let q = q\<lparr>p1s := p1s q @ [r]\<rparr> in
      ebind (get_item (xp s) 5) (\<lambda>r.
      let q = q\<lparr>p2s := p2s q @ [r]\<rparr> in
      ebind (get_item (xp s) 6) (\<lambda>r.
      let q = q\<lparr>p3s := p3s q @ [r]\<rparr> in
      ebind (get_item (z s) 1) (\<lambda>r.
      let q = q\<lparr>mus := mus q @ [r]\<rparr> in
      ebind (get_item (z s) 2) (\<lambda>r.
      let q = q\<lparr>nups := nups q @ [r]\<rparr> in
      ebind (get_item (z s) 3) (\<lambda>r.
      let q = q\<lparr>nums := nums q @ [r]\<rparr> in
      Inr q))))))))))))))"

text \<open>Lines 46 to 71, one pass through the body of the while loop.\<close>

definition loop_body :: "env \<Rightarrow> world \<Rightarrow> locals \<Rightarrow> world \<times> (error + locals)" where
  "loop_body env w s =
     (let ts0 = dtime env (clock w);
          (sol, infos) = solve env driver_options (bvp_sol s) (ocp s);
          ts1 = dtime env (clock w + 1);
          w = w\<lparr>clock := clock w + 2, calls := calls w @ [(bvp_sol s, ocp s)]\<rparr>;
          s = s\<lparr>bvp_sol := sol\<rparr>;
          s = s\<lparr>cumul_time := cumul_time s + (ts1 - ts0)\<rparr>
      in if \<not> success infos
         then (w, Inl (Exception ''Primal-dual Goddard problem failed before convergence''))
         else
           let s = s\<lparr>time := bvp_time (bvp_sol s), xp := bvp_xp (bvp_sol s),
                     z := bvp_z (bvp_sol s)\<rparr>;
               s = s\<lparr>convergence := (eps s \<le> tol s)\<rparr>;
               s = s\<lparr>eps := eps s * alpha s\<rparr>;
               s = s\<lparr>ocp := ocp_set_eps (ocp s) (eps s)\<rparr>
           in (w, ebind (append_sequences env s) (\<lambda>q.
                   Inr (s\<lparr>seqs := q, iter := iter s + 1\<rparr>))))"

text \<open>
  Line 45: the loop runs its body until \<open>convergence\<close> is set. A loop that never ends
  has the value \<open>None\<close>.
\<close>

partial_function (option) while_loop ::
  "env \<Rightarrow> world \<Rightarrow> locals \<Rightarrow> (world \<times> (error + locals)) option" where
  "while_loop env w s =
     (if convergence s then Some (w, Inr s)
      else case loop_body env w s of
             (w', Inl e) \<Rightarrow> Some (w', Inl e)
           | (w', Inr s') \<Rightarrow> while_loop env w' s')"

text \<open>
  Lines 72 to 106. Plotting and printing leave no trace in the model, but they can
  raise: the array reads raise IndexError, and \<open>plt.plot\<close> of line 91 raises ValueError
  when its two arguments, \<open>time * xp[3, 0]\<close> and \<open>z[0]\<close>, differ in length. The division of
  line 72 raises on a zero divisor. \<open>plot_sequence\<close> is not among the sources and is taken
  to return; errors of the file system are outside the model.
\<close>

definition finish :: "env \<Rightarrow> world \<Rightarrow> locals \<Rightarrow> world \<times> (error + pyval)" where
  "finish env w s =
     (if alpha s = 0 then (w, Inl ZeroDivisionError)
      else
        let (time0, xp0, z0) = ocp_initialize env;
            initial_solution =
              PyDict [(''time'', Array1 time0), (''xp'', Array2 xp0), (''z'', Array2 z0)];
            optimal_solution =
              PyDict [(''time'', Array1 (time s)), (''xp'', Array2 (xp s)),
                      (''z'', Array2 (z s)), (''eps'', PyFloat (eps s / alpha s)),
                      (''alpha'', PyFloat (alpha s)), (''exec_time'', PyFloat (cumul_time s)),
                      (''iter'', PyInt (iter s))];
            dict_save =
              PyDict [(''initial_solution'', initial_solution),
                      (''optimal_solution'', optimal_solution)];
            w = w\<lparr>files := files w @
                  [(''Goddard/results_goddard_primal_dual.pickle'', dict_save)]\<rparr>;
            reads =
              ebind (get_item2 (xp s) 3 0) (\<lambda>_.
              ebind (get_item (z s) 0) (\<lambda>u.
              ebind (if length (time s) = length u then Inr () else Inl ValueError) (\<lambda>_.
              ebind (get_item2 (xp s) 3 0) (\<lambda>_.
              get_item2 (xp s) 0 (- 1)))))
        in case reads of
             Inl e \<Rightarrow> (w, Inl e)
           | Inr _ \<Rightarrow>
               let data_solution =
                     PyDict [(''t'', List1 (time s)), (''xp'', List2 (xp s)),
                             (''z'', List2 (z s))];
                   w = w\<lparr>files := files w @
                         [(''Goddard/results_goddard_primal_dual.json'', data_solution)]\<rparr>
               in (w, Inr optimal_solution))"

definition main_primal_dual :: "env \<Rightarrow> (world \<times> (error + pyval)) option" where
  "main_primal_dual env =
     (case while_loop env world0 (start env) of
        None \<Rightarrow> None
      | Some (w, Inl e) \<Rightarrow> Some (w, Inl e)
      | Some (w, Inr s) \<Rightarrow> Some (finish env w s))"

section \<open>Notions used in the statements\<close>

subsection \<open>Zermelo: the Jacobian blocks of the boundary conditions\<close>

definition gx0_Z :: "real list list" where
  "gx0_Z = [[1, 0, 0, 0, 0, 0], [0, 1, 0, 0, 0, 0], [0, 0, 0, 0, 0, 0],
            [0, 0, 0, 0, 0, 0], [0, 0, 0, 0, 0, 1], [0, 0, 0, 0, 0, 0]]"

definition gxT_Z :: "real list list" where
  "gxT_Z = [[0, 0, 0, 0, 0, 0], [0, 0, 0, 0, 0, 0], [1, 0, 0, 0, 0, 0],
            [0, 1, 0, 0, 0, 0], [0, 0, 0, 0, 0, 0], [0, 0, 0, 0, 0, 1]]"

subsection \<open>One pass through the loop\<close>

text \<open>
  The call the body makes to the solver, its trace in the world, and the local variables
  after line 57 when the solve has succeeded.
\<close>

definition solve_at :: "env \<Rightarrow> locals \<Rightarrow> BVPSol \<times> infos" where
  "solve_at env s = solve env driver_options (bvp_sol s) (ocp s)"

definition after_call :: "world \<Rightarrow> locals \<Rightarrow> world" where
  "after_call w s = w\<lparr>clock := clock w + 2, calls := calls w @ [(bvp_sol s, ocp s)]\<rparr>"

definition stepped :: "env \<Rightarrow> world \<Rightarrow> locals \<Rightarrow> locals" where
  "stepped env w s =
     s\<lparr>bvp_sol := fst (solve_at env s),
       cumul_time := cumul_time s + (dtime env (clock w + 1) - dtime env (clock w)),
       time := bvp_time (fst (solve_at env s)),
       xp := bvp_xp (fst (solve_at env s)),
       z := bvp_z (fst (solve_at env s)),
       convergence := (eps s \<le> tol s),
       eps := eps s * alpha s,
       ocp := ocp_set_eps (ocp s) (eps s * alpha s)\<rparr>"

text \<open>
  The body reads rows 0 to 6 of \<open>xp\<close>, entry \<open>(3, 0)\<close> and rows 0 to 3 of \<open>z\<close>; after the
  loop \<open>z[0]\<close> is plotted against the time grid and \<open>xp[0, -1]\<close> is printed. A trajectory
  of the Goddard problem (seven states and adjoints, four algebraic variables, each
  sampled on the time grid, at least one time point) allows all of it.
\<close>

definition goddard_shape :: "BVPSol \<Rightarrow> bool" where
  "goddard_shape b \<longleftrightarrow>
     7 \<le> length (bvp_xp b) \<and> bvp_xp b ! 0 \<noteq> [] \<and> bvp_xp b ! 3 \<noteq> [] \<and> 4 \<le> length (bvp_z b)
     \<and> length (bvp_time b) = length (bvp_z b ! 0)"

definition call_ok :: "env \<Rightarrow> BVPSol \<times> GoddardPrimalDual \<Rightarrow> bool" where
  "call_ok env bc = success (snd (solve env driver_options (fst bc) (snd bc)))"

definition failure :: error where
  "failure = Exception ''Primal-dual Goddard problem failed before convergence''"

text \<open>
  A call to the solver that succeeds and returns a trajectory of these shapes, and a run
  all of whose calls, the ones it has made and no others, are such.
\<close>

definition call_fine :: "env \<Rightarrow> BVPSol \<times> GoddardPrimalDual \<Rightarrow> bool" where
  "call_fine env bc \<longleftrightarrow>
     success (snd (solve env driver_options (fst bc) (snd bc)))
     \<and> goddard_shape (fst (solve env driver_options (fst bc) (snd bc)))"

definition run_ok :: "env \<Rightarrow> world \<Rightarrow> bool" where
  "run_ok env w \<longleftrightarrow> list_all (call_fine env) (calls w)"

subsection \<open>A whole run of the loop\<close>

text \<open>The time spent in \<open>n\<close> solves when the timer has been read \<open>c\<close> times before.\<close>

definition elapsed :: "env \<Rightarrow> nat \<Rightarrow> nat \<Rightarrow> real" where
  "elapsed env c n = (\<Sum>k<n. dtime env (c + 2 * k + 1) - dtime env (c + 2 * k))"

text \<open>
  The locals \<open>s'\<close> at the exit of a loop that started from \<open>w\<close> and \<open>s\<close> and has made the
  calls \<open>cs\<close>: the last solve was at an \<open>eps\<close> not above \<open>tol\<close>, \<open>eps\<close> has been contracted
  once per call, and the trajectory is the one the last call returned.
\<close>

definition exit_state ::
  "env \<Rightarrow> world \<Rightarrow> locals \<Rightarrow> (BVPSol \<times> GoddardPrimalDual) list \<Rightarrow> locals \<Rightarrow> bool" where
  "exit_state env w s cs s' \<longleftrightarrow>
     convergence s' \<and> eps s * alpha s ^ (length cs - 1) \<le> tol s
     \<and> eps s' = eps s * alpha s ^ length cs \<and> alpha s' = alpha s \<and> tol s' = tol s
     \<and> ocp_eps (ocp s') = eps s'
     \<and> iter s' = iter s + int (length cs)
     \<and> cumul_time s' = cumul_time s + elapsed env (clock w) (length cs)
     \<and> bvp_sol s' = fst (solve env driver_options (fst (last cs)) (snd (last cs)))
     \<and> time s' = bvp_time (bvp_sol s') \<and> xp s' = bvp_xp (bvp_sol s')
     \<and> z s' = bvp_z (bvp_sol s')"

text \<open>
  A run of the loop from \<open>w\<close> and \<open>s\<close> that ends in \<open>w'\<close> with \<open>r\<close> after the calls \<open>cs\<close>: the
  \<open>k\<close>-th call was made at \<open>eps * alpha ^ k\<close>, every call but the last at a value above
  \<open>tol\<close>, and nothing was written.
\<close>

definition loop_trace ::
  "env \<Rightarrow> world \<Rightarrow> locals \<Rightarrow> world \<Rightarrow> error + locals \<Rightarrow>
     (BVPSol \<times> GoddardPrimalDual) list \<Rightarrow> bool" where
  "loop_trace env w s w' r cs \<longleftrightarrow>
     calls w' = calls w @ cs \<and> files w' = files w \<and> clock w' = clock w + 2 * length cs
     \<and> cs \<noteq> []
     \<and> map (ocp_eps \<circ> snd) cs = map (\<lambda>k. eps s * alpha s ^ k) [0..<length cs]
     \<and> (\<forall>k. Suc k < length cs \<longrightarrow> tol s < eps s * alpha s ^ k)
     \<and> (\<forall>s'. r = Inr s' \<longrightarrow> exit_state env w s cs s')"

text \<open>
  The calls \<open>cs\<close> a run of the loop from \<open>s\<close> has added when it ends with \<open>r\<close>: all but the
  last have succeeded, the last one has failed exactly when the run ends with the
  exception of line 53, and a run that enters the body has called the solver on the
  trajectory and contract it started with.
\<close>

definition calls_inv ::
  "env \<Rightarrow> locals \<Rightarrow> error + locals \<Rightarrow> (BVPSol \<times> GoddardPrimalDual) list \<Rightarrow> bool" where
  "calls_inv env s r cs \<longleftrightarrow>
     list_all (call_ok env) (butlast cs)
     \<and> (r = Inl failure) = (cs \<noteq> [] \<and> \<not> call_ok env (last cs))
     \<and> (if convergence s then cs = [] else cs \<noteq> [] \<and> hd cs = (bvp_sol s, ocp s))"

subsection \<open>Reading the outcome of \<open>main_primal_dual\<close>\<close>

fun dict_get :: "pyval \<Rightarrow> string \<Rightarrow> pyval option" where
  "dict_get (PyDict kvs) k = map_of kvs k"
| "dict_get _ k = None"

fun dict_keys :: "pyval \<Rightarrow> string list" where
  "dict_keys (PyDict kvs) = map fst kvs"
| "dict_keys _ = []"

definition trajectory :: "BVPSol \<Rightarrow> real list \<times> real list list \<times> real list list" where
  "trajectory b = (bvp_time b, bvp_xp b, bvp_z b)"

definition last_solve :: "env \<Rightarrow> world \<Rightarrow> BVPSol" where
  "last_solve env w = fst (solve env driver_options (fst (last (calls w))) (snd (last (calls w))))"

text \<open>The record of line 72 and the two documents, as functions of the locals at the exit.\<close>

definition optimal_solution :: "locals \<Rightarrow> pyval" where
  "optimal_solution s =
     PyDict [(''time'', Array1 (time s)), (''xp'', Array2 (xp s)), (''z'', Array2 (z s)),
             (''eps'', PyFloat (eps s / alpha s)), (''alpha'', PyFloat (alpha s)),
             (''exec_time'', PyFloat (cumul_time s)), (''iter'', PyInt (iter s))]"

definition initial_solution :: "env \<Rightarrow> pyval" where
  "initial_solution env =
     PyDict [(''time'', Array1 (fst (ocp_initialize env))),
             (''xp'', Array2 (fst (snd (ocp_initialize env)))),
             (''z'', Array2 (snd (snd (ocp_initialize env))))]"

definition documents :: "env \<Rightarrow> locals \<Rightarrow> (string \<times> pyval) list" where
  "documents env s =
     [(''Goddard/results_goddard_primal_dual.pickle'',
       PyDict [(''initial_solution'', initial_solution env),
               (''optimal_solution'', optimal_solution s)]),
      (''Goddard/results_goddard_primal_dual.json'',
       PyDict [(''t'', List1 (time s)), (''xp'', List2 (xp s)), (''z'', List2 (z s))])]"



definition raised :: "env \<Rightarrow> error option" where
  "raised env =
     (case main_primal_dual env of Some (w, Inl e) \<Rightarrow> Some e | _ \<Rightarrow> None)"

definition written :: "env \<Rightarrow> string \<Rightarrow> pyval option" where
  "written env path =
     (case main_primal_dual env of Some (w, r) \<Rightarrow> map_of (files w) path | None \<Rightarrow> None)"

definition solver_inputs :: "env \<Rightarrow> (BVPSol \<times> real) list" where
  "solver_inputs env =
     (case main_primal_dual env of
        Some (w, r) \<Rightarrow> map (\<lambda>bc. (fst bc, ocp_eps (snd bc))) (calls w)
      | None \<Rightarrow> [])"

subsection \<open>Three environments\<close>

text \<open>
  A solver that always succeeds with the same trajectory, one that fails at once, and one
  that succeeds for \<open>eps = 1\<close> only. The timer counts its own calls.
\<close>

definition sol_ok :: BVPSol where
  "sol_ok = \<lparr> bvp_time = [0, 1],
             bvp_xp = [[1, 1], [1, 1], [1, 1], [1, 1], [1, 1], [1, 1], [1, 1]],
             bvp_z = [[0, 0], [0, 0], [0, 0], [0, 0]] \<rparr>"

definition guess :: BVPSol where
  "guess = \<lparr> bvp_time = [0, 1],
             bvp_xp = [[0, 0], [0, 0], [0, 0], [0, 0], [0, 0], [0, 0], [0, 0]],
             bvp_z = [[0, 0], [0, 0], [0, 0], [0, 0]] \<rparr>"

definition env_converging :: env where
  "env_converging =
     \<lparr> new_ocp = \<lparr> ocp_eps = 0 \<rparr>,
       ocp_initialize = trajectory guess,
       dyn_press = (\<lambda>hh vv. hh),
       solve = (\<lambda>opts b c. (sol_ok, \<lparr> success = True \<rparr>)),
       dtime = (\<lambda>k. real k) \<rparr>"

definition env_failing_at_once :: env where
  "env_failing_at_once =
     env_converging\<lparr> solve := (\<lambda>opts b c. (b, \<lparr> success = False \<rparr>)) \<rparr>"

definition env_failing_later :: env where
  "env_failing_later =
     env_converging\<lparr> solve := (\<lambda>opts b c. (sol_ok, \<lparr> success = (ocp_eps c = 1) \<rparr>)) \<rparr>"

section \<open>Properties of the Zermelo problem\<close>

lemma ebind_simps [simp]: "ebind (Inr v) f = f v" "ebind (Inl e) f = Inl e"
  by (simp_all add: ebind_def)

lemma length_linspace [simp]: "length (linspace a b n) = n"
  by (simp add: linspace_def)

subsection \<open>The state constraint and its derivative branches\<close>

lemma center_init: "self_center init_ZermeloPrimalOCP = [10, 2 / 5]"
  by (simp add: init_ZermeloPrimalOCP_def)

lemma sc_value:
  "state_constraint init_ZermeloPrimalOCP x0 x1 0 0 =
     - ((x0 - 10) ^ 2) / 4 - (x1 - 2 / 5) ^ 2 * 100 + 4"
  by (simp add: state_constraint_def init_ZermeloPrimalOCP_def power2_eq_square)

lemma sc_deriv_x0:
  "((\<lambda>x. state_constraint init_ZermeloPrimalOCP x x1 0 0) has_real_derivative
      - 2 * (x0 - 10) / 4) (at x0)"
  unfolding sc_value
  by (auto intro!: derivative_eq_intros simp: field_simps)

lemma sc_deriv_x1:
  "((\<lambda>x. state_constraint init_ZermeloPrimalOCP x0 x 0 0) has_real_derivative
      - 2 * (x1 - 2 / 5) * 100) (at x1)"
  unfolding sc_value
  by (auto intro!: derivative_eq_intros simp: field_simps)

lemma sc_dx0: "state_constraint init_ZermeloPrimalOCP x0 x1 1 0 = - 2 * (x0 - 5) / 4"
  by (simp add: state_constraint_def init_ZermeloPrimalOCP_def power2_eq_square)

lemma sc_dx1: "state_constraint init_ZermeloPrimalOCP x0 x1 0 1 = - 2 * (x1 - 4 / 25) * 100"
  by (simp add: state_constraint_def init_ZermeloPrimalOCP_def power2_eq_square)

text \<open>
  C1 (the code departs from the claim). The claim: for every \<open>x0\<close>, \<open>x1\<close> the branch
  \<open>dx0 = 1\<close> of \<open>state_constraint\<close> is the partial derivative in \<open>x0\<close> of the value
  branch, and the branch \<open>dx1 = 1\<close> the partial derivative in \<open>x1\<close>. With the centre
  \<open>(10, 0.4)\<close> of the constructor, at \<open>x0 = x1 = 0\<close> the value branch has the partial
  derivatives \<open>5\<close> and \<open>80\<close>, while the derivative branches return \<open>5/2\<close> and \<open>32\<close>:
  they subtract \<open>center[0] / 2\<close> and \<open>center[1] / 2.5\<close> where the value branch
  subtracts \<open>center[0]\<close> and \<open>center[1]\<close>.
\<close>

theorem state_constraint_first_derivatives_off:
  "\<not> ((\<lambda>x. state_constraint init_ZermeloPrimalOCP x 0 0 0) has_real_derivative
        state_constraint init_ZermeloPrimalOCP 0 0 1 0) (at 0)
   \<and> \<not> ((\<lambda>x. state_constraint init_ZermeloPrimalOCP 0 x 0 0) has_real_derivative
        state_constraint init_ZermeloPrimalOCP 0 0 0 1) (at 0)
   \<and> state_constraint init_ZermeloPrimalOCP 0 0 1 0 = 5 / 2
   \<and> ((\<lambda>x. state_constraint init_ZermeloPrimalOCP x 0 0 0) has_real_derivative 5) (at 0)
   \<and> state_constraint init_ZermeloPrimalOCP 0 0 0 1 = 32
   \<and> ((\<lambda>x. state_constraint init_ZermeloPrimalOCP 0 x 0 0) has_real_derivative 80) (at 0)"
proof -
  have d0: "((\<lambda>x. state_constraint init_ZermeloPrimalOCP x 0 0 0) has_real_derivative 5) (at 0)"
    using sc_deriv_x0 [of 0 0] by simp
  have d1: "((\<lambda>x. state_constraint init_ZermeloPrimalOCP 0 x 0 0) has_real_derivative 80) (at 0)"
    using sc_deriv_x1 [of 0 0] by simp
  have v0: "state_constraint init_ZermeloPrimalOCP 0 0 1 0 = 5 / 2"
    by (simp add: sc_dx0)
  have v1: "state_constraint init_ZermeloPrimalOCP 0 0 0 1 = 32"
    by (simp add: sc_dx1)
  have n0: "\<not> ((\<lambda>x. state_constraint init_ZermeloPrimalOCP x 0 0 0) has_real_derivative
        state_constraint init_ZermeloPrimalOCP 0 0 1 0) (at 0)"
  proof
    assume "((\<lambda>x. state_constraint init_ZermeloPrimalOCP x 0 0 0) has_real_derivative
        state_constraint init_ZermeloPrimalOCP 0 0 1 0) (at 0)"
    from DERIV_unique [OF this d0] v0 show False by simp
  qed
  have n1: "\<not> ((\<lambda>x. state_constraint init_ZermeloPrimalOCP 0 x 0 0) has_real_derivative
        state_constraint init_ZermeloPrimalOCP 0 0 0 1) (at 0)"
  proof
    assume "((\<lambda>x. state_constraint init_ZermeloPrimalOCP 0 x 0 0) has_real_derivative
        state_constraint init_ZermeloPrimalOCP 0 0 0 1) (at 0)"
    from DERIV_unique [OF this d1] v1 show False by simp
  qed
  from n0 n1 v0 d0 v1 d1 show ?thesis by blast
qed

subsection \<open>The current \<open>h\<close> and its derivative branches\<close>

lemma h_d1: "((\<lambda>x. h self x 0) has_real_derivative h self x1 1) (at x1)"
  unfolding h_def
  by (auto intro!: derivative_eq_intros simp: field_simps)

lemma h_d2: "((\<lambda>x. h self x 1) has_real_derivative - (4 / 10)) (at x1)"
  unfolding h_def
  by (auto intro!: derivative_eq_intros)

text \<open>
  C2 (the code departs from the claim). The claim: \<open>h(x1, d=1)\<close> is the derivative of
  \<open>h(x1, d=0)\<close>, and \<open>h(x1, d=2)\<close> is the derivative of \<open>h(x1, d=1)\<close>, the constant
  \<open>-0.4\<close>. The first half holds at every \<open>x1\<close>. The second fails: the derivative of the
  branch \<open>d = 1\<close> is \<open>-0.4\<close>, and the branch \<open>d = 2\<close> returns \<open>-4\<close>.
\<close>

theorem h_second_derivative_off:
  "((\<lambda>x. h init_ZermeloPrimalOCP x 0) has_real_derivative h init_ZermeloPrimalOCP 0 1) (at 0)
   \<and> h init_ZermeloPrimalOCP 0 2 = - 4
   \<and> ((\<lambda>x. h init_ZermeloPrimalOCP x 1) has_real_derivative - (4 / 10)) (at 0)
   \<and> \<not> ((\<lambda>x. h init_ZermeloPrimalOCP x 1) has_real_derivative h init_ZermeloPrimalOCP 0 2) (at 0)"
proof -
  have v: "h init_ZermeloPrimalOCP 0 2 = - 4" by (simp add: h_def)
  have d: "((\<lambda>x. h init_ZermeloPrimalOCP x 1) has_real_derivative - (4 / 10)) (at 0)"
    by (rule h_d2)
  have "\<not> ((\<lambda>x. h init_ZermeloPrimalOCP x 1) has_real_derivative h init_ZermeloPrimalOCP 0 2) (at 0)"
  proof
    assume "((\<lambda>x. h init_ZermeloPrimalOCP x 1) has_real_derivative h init_ZermeloPrimalOCP 0 2) (at 0)"
    from DERIV_unique [OF this d] v show False by simp
  qed
  with v d h_d1 [of init_ZermeloPrimalOCP 0] show ?thesis by blast
qed

subsection \<open>The boundary conditions and their Jacobian\<close>

lemma length6:
  "length xs = 6 \<Longrightarrow> \<exists>a0 a1 a2 a3 a4 a5. xs = [a0, a1, a2, a3, a4, a5]"
  by (auto simp: length_Suc_conv eval_nat_numeral)

lemma length2:
  "length xs = 2 \<Longrightarrow> \<exists>a0 a1. xs = [a0, a1]"
  by (auto simp: length_Suc_conv eval_nat_numeral)

lemma less6: "i < 6 \<longleftrightarrow> i = 0 \<or> i = 1 \<or> i = 2 \<or> i = 3 \<or> i = 4 \<or> i = (5::nat)"
  by auto

lemma less2: "i < 2 \<longleftrightarrow> i = 0 \<or> i = (1::nat)"
  by auto

text \<open>On arrays of six entries \<open>twobc\<close> raises nothing, and its six residuals are these.\<close>

lemma twobc_value:
  assumes "length (self_x0 self) = 2" "length (self_xfinal self) = 2"
    "length xp0 = 6" "length xpT = 6"
  shows "twobc self xp0 xpT z0 zT =
     Inr [xp0 ! 0 - self_x0 self ! 0, xp0 ! 1 - self_x0 self ! 1,
          xpT ! 0 - self_xfinal self ! 0, xpT ! 1 - self_xfinal self ! 1,
          xp0 ! 5, xpT ! 5 - 1]"
proof -
  obtain a0 a1 a2 a3 a4 a5 where a: "xp0 = [a0, a1, a2, a3, a4, a5]"
    using length6 [OF assms(3)] by blast
  obtain b0 b1 b2 b3 b4 b5 where b: "xpT = [b0, b1, b2, b3, b4, b5]"
    using length6 [OF assms(4)] by blast
  obtain c0 c1 where c: "self_x0 self = [c0, c1]"
    using length2 [OF assms(1)] by blast
  obtain d0 d1 where d: "self_xfinal self = [d0, d1]"
    using length2 [OF assms(2)] by blast
  show ?thesis
    by (simp add: twobc_def a b c d np_sub_def broadcast_to_def set_slice_def zeros_def
        get_item_def set_item_def py_index_def)
qed

lemma bcjac_value:
  assumes "length xp0 = 6" "length xpT = 6" "length z0 = 2"
  shows "bcjac self xp0 xpT z0 zT = Inr (gx0_Z, gxT_Z, replicate 6 [0, 0], replicate 6 [0, 0])"
  using assms
  by (simp add: bcjac_def zeros2_def zeros_def set_block_def eye_def set_item2_def
      set_item_def py_index_def Let_def eval_nat_numeral gx0_Z_def gxT_Z_def upt_rec)

lemma d_xp0:
  assumes "length (self_x0 self) = 2" "length (self_xfinal self) = 2"
    "length xp0 = 6" "length xpT = 6" "i < 6" "j < 6"
  shows "((\<lambda>t. projr (twobc self (xp0[j := t]) xpT z0 zT) ! i)
            has_real_derivative gx0_Z ! i ! j) (at (xp0 ! j))"
  using assms
  apply (simp add: twobc_value)
  apply (auto simp: less6 gx0_Z_def intro!: derivative_eq_intros)
  done

lemma d_xpT:
  assumes "length (self_x0 self) = 2" "length (self_xfinal self) = 2"
    "length xp0 = 6" "length xpT = 6" "i < 6" "j < 6"
  shows "((\<lambda>t. projr (twobc self xp0 (xpT[j := t]) z0 zT) ! i)
            has_real_derivative gxT_Z ! i ! j) (at (xpT ! j))"
  using assms
  apply (simp add: twobc_value)
  apply (auto simp: less6 gxT_Z_def intro!: derivative_eq_intros)
  done

lemma d_z0:
  assumes "length (self_x0 self) = 2" "length (self_xfinal self) = 2"
    "length xp0 = 6" "length xpT = 6" "i < 6" "j < 2"
  shows "((\<lambda>t. projr (twobc self xp0 xpT (z0[j := t]) zT) ! i)
            has_real_derivative replicate 6 [0, 0] ! i ! j) (at (z0 ! j))"
  using assms
  apply (simp add: twobc_value)
  apply (auto simp: less6 less2)
  done

lemma d_zT:
  assumes "length (self_x0 self) = 2" "length (self_xfinal self) = 2"
    "length xp0 = 6" "length xpT = 6" "i < 6" "j < 2"
  shows "((\<lambda>t. projr (twobc self xp0 xpT z0 (zT[j := t])) ! i)
            has_real_derivative replicate 6 [0, 0] ! i ! j) (at (zT ! j))"
  using assms
  apply (simp add: twobc_value)
  apply (auto simp: less6 less2)
  done

text \<open>
  C7. For arrays of the shapes of the Zermelo problem (six states and adjoints, two
  controls) \<open>twobc\<close> and \<open>bcjac\<close> raise nothing, and each entry \<open>(i, j)\<close> of the four blocks
  returned by \<open>bcjac\<close> is the partial derivative of the \<open>i\<close>-th residual of \<open>twobc\<close> in
  the \<open>j\<close>-th entry of \<open>xp0\<close>, \<open>xpT\<close>, \<open>z0\<close> and \<open>zT\<close> respectively.
\<close>

theorem bcjac_is_jacobian_of_twobc:
  assumes "length (self_x0 self) = 2" "length (self_xfinal self) = 2"
    "length xp0 = 6" "length xpT = 6" "length z0 = 2" "length zT = 2"
  shows "\<exists>bc gx0 gxT gz0 gzT.
      twobc self xp0 xpT z0 zT = Inr bc \<and> length bc = 6
    \<and> bcjac self xp0 xpT z0 zT = Inr (gx0, gxT, gz0, gzT)
    \<and> map length gx0 = replicate 6 6 \<and> map length gxT = replicate 6 6
    \<and> map length gz0 = replicate 6 2 \<and> map length gzT = replicate 6 2
    \<and> (\<forall>a b c d. length a = 6 \<longrightarrow> length b = 6 \<longrightarrow> \<not> isl (twobc self a b c d))
    \<and> (\<forall>i<6. \<forall>j<6. ((\<lambda>t. projr (twobc self (xp0[j := t]) xpT z0 zT) ! i)
            has_real_derivative gx0 ! i ! j) (at (xp0 ! j)))
    \<and> (\<forall>i<6. \<forall>j<6. ((\<lambda>t. projr (twobc self xp0 (xpT[j := t]) z0 zT) ! i)
            has_real_derivative gxT ! i ! j) (at (xpT ! j)))
    \<and> (\<forall>i<6. \<forall>j<2. ((\<lambda>t. projr (twobc self xp0 xpT (z0[j := t]) zT) ! i)
            has_real_derivative gz0 ! i ! j) (at (z0 ! j)))
    \<and> (\<forall>i<6. \<forall>j<2. ((\<lambda>t. projr (twobc self xp0 xpT z0 (zT[j := t])) ! i)
            has_real_derivative gzT ! i ! j) (at (zT ! j)))"
proof -
  note len = assms(1-4)
  have v: "twobc self xp0 xpT z0 zT =
     Inr [xp0 ! 0 - self_x0 self ! 0, xp0 ! 1 - self_x0 self ! 1,
          xpT ! 0 - self_xfinal self ! 0, xpT ! 1 - self_xfinal self ! 1,
          xp0 ! 5, xpT ! 5 - 1]"
    by (rule twobc_value [OF len])
  have j: "bcjac self xp0 xpT z0 zT =
      Inr (gx0_Z, gxT_Z, replicate 6 [0, 0], replicate 6 [0, 0])"
    by (rule bcjac_value [OF assms(3) assms(4) assms(5)])
  have shape: "map length gx0_Z = replicate 6 6" "map length gxT_Z = replicate 6 6"
    "map length (replicate 6 [0, 0 :: real]) = replicate 6 2"
    by (simp_all add: gx0_Z_def gxT_Z_def eval_nat_numeral)
  have total: "\<forall>a b c d. length a = 6 \<longrightarrow> length b = 6 \<longrightarrow> \<not> isl (twobc self a b c d)"
    by (simp add: twobc_value [OF assms(1) assms(2)])
  from v j shape total d_xp0 [OF len] d_xpT [OF len] d_z0 [OF len] d_zT [OF len]
  show ?thesis
    by simp
qed

theorem bcjac_is_jacobian_of_twobc_witness:
  "\<exists>bc gx0 gxT gz0 gzT.
      twobc init_ZermeloPrimalOCP [1, 2, 3, 4, 5, 6] [6, 5, 4, 3, 2, 1] [0, 0] [1, 1] = Inr bc
    \<and> bcjac init_ZermeloPrimalOCP [1, 2, 3, 4, 5, 6] [6, 5, 4, 3, 2, 1] [0, 0] [1, 1]
        = Inr (gx0, gxT, gz0, gzT)
    \<and> ((\<lambda>t. projr (twobc init_ZermeloPrimalOCP ([1, 2, 3, 4, 5, 6][5 := t])
                      [6, 5, 4, 3, 2, 1] [0, 0] [1, 1]) ! 4)
            has_real_derivative gx0 ! 4 ! 5) (at 6)
    \<and> ((\<lambda>t. projr (twobc init_ZermeloPrimalOCP [1, 2, 3, 4, 5, 6]
                      ([6, 5, 4, 3, 2, 1][0 := t]) [0, 0] [1, 1]) ! 2)
            has_real_derivative gxT ! 2 ! 0) (at 6)"
proof -
  have "length (self_x0 init_ZermeloPrimalOCP) = 2"
    "length (self_xfinal init_ZermeloPrimalOCP) = 2"
    by (simp_all add: init_ZermeloPrimalOCP_def)
  from bcjac_is_jacobian_of_twobc [OF this, of "[1, 2, 3, 4, 5, 6]" "[6, 5, 4, 3, 2, 1]"
      "[0, 0]" "[1, 1]"]
  obtain bc gx0 gxT gz0 gzT where
    r: "twobc init_ZermeloPrimalOCP [1, 2, 3, 4, 5, 6] [6, 5, 4, 3, 2, 1] [0, 0] [1, 1] = Inr bc"
      "bcjac init_ZermeloPrimalOCP [1, 2, 3, 4, 5, 6] [6, 5, 4, 3, 2, 1] [0, 0] [1, 1]
        = Inr (gx0, gxT, gz0, gzT)"
    and a: "\<forall>i<6. \<forall>j<6. ((\<lambda>t. projr (twobc init_ZermeloPrimalOCP ([1, 2, 3, 4, 5, 6][j := t])
                      [6, 5, 4, 3, 2, 1] [0, 0] [1, 1]) ! i)
            has_real_derivative gx0 ! i ! j) (at ([1, 2, 3, 4, 5, 6] ! j))"
    and b: "\<forall>i<6. \<forall>j<6. ((\<lambda>t. projr (twobc init_ZermeloPrimalOCP [1, 2, 3, 4, 5, 6]
                      ([6, 5, 4, 3, 2, 1][j := t]) [0, 0] [1, 1]) ! i)
            has_real_derivative gxT ! i ! j) (at ([6, 5, 4, 3, 2, 1] ! j))"
    by auto
  have "((\<lambda>t. projr (twobc init_ZermeloPrimalOCP ([1, 2, 3, 4, 5, 6][5 := t])
                      [6, 5, 4, 3, 2, 1] [0, 0] [1, 1]) ! 4)
            has_real_derivative gx0 ! 4 ! 5) (at ([1, 2, 3, 4, 5, 6] ! 5))"
    using a [rule_format, of 4 5] by simp
  moreover have "((\<lambda>t. projr (twobc init_ZermeloPrimalOCP [1, 2, 3, 4, 5, 6]
                      ([6, 5, 4, 3, 2, 1][0 := t]) [0, 0] [1, 1]) ! 2)
            has_real_derivative gxT ! 2 ! 0) (at ([6, 5, 4, 3, 2, 1] ! 0))"
    using b [rule_format, of 2 0] by simp
  ultimately show ?thesis
    using r by simp
qed

subsection \<open>The initial trajectory\<close>




section \<open>Properties of the continuation driver\<close>

subsection \<open>The body of the loop\<close>

lemma loop_body_unfold:
  "loop_body env w s =
     (after_call w s,
      if \<not> success (snd (solve_at env s))
      then Inl (Exception ''Primal-dual Goddard problem failed before convergence'')
      else ebind (append_sequences env (stepped env w s))
             (\<lambda>q. Inr ((stepped env w s)\<lparr>seqs := q, iter := iter s + 1\<rparr>)))"
  by (simp add: loop_body_def after_call_def solve_at_def stepped_def Let_def split_beta)

lemma fst_loop_body: "fst (loop_body env w s) = after_call w s"
  by (simp add: loop_body_unfold)

lemma loop_body_failure:
  assumes "\<not> success (snd (solve_at env s))"
  shows "loop_body env w s =
    (after_call w s, Inl (Exception ''Primal-dual Goddard problem failed before convergence''))"
  using assms by (simp add: loop_body_unfold)

lemma get_item_error: "get_item xs i = Inl e \<Longrightarrow> e = IndexError"
  by (auto simp: get_item_def py_index_def Let_def split: if_splits)

lemma get_item2_error: "get_item2 m i j = Inl e \<Longrightarrow> e = IndexError"
  by (auto simp: get_item2_def ebind_def split: sum.splits dest: get_item_error)

lemma ebind_Inl:
  assumes "ebind m f = Inl e"
    and "m = Inl e \<Longrightarrow> P"
    and "\<And>v. m = Inr v \<Longrightarrow> f v = Inl e \<Longrightarrow> P"
  shows P
  using assms by (cases m) simp_all

lemma append_sequences_error:
  assumes "append_sequences env s = Inl e"
  shows "e = IndexError"
  using assms unfolding append_sequences_def Let_def
  by (elim ebind_Inl) (auto dest: get_item_error get_item2_error)

text \<open>A pass that ends normally has seen a successful solve and leaves these locals.\<close>

lemma loop_body_Inr:
  assumes "loop_body env w s = (w', Inr s')"
  shows "w' = after_call w s \<and> success (snd (solve_at env s))
     \<and> (\<exists>q. s' = (stepped env w s)\<lparr>seqs := q, iter := iter s + 1\<rparr>)"
  using assms
  by (auto simp: loop_body_unfold ebind_def split: if_splits sum.splits)

text \<open>A pass that raises: line 53 after a failed solve, an IndexError otherwise.\<close>

lemma loop_body_Inl:
  assumes "loop_body env w s = (w', Inl e)"
  shows "w' = after_call w s \<and>
     (if success (snd (solve_at env s)) then e = IndexError
      else e = Exception ''Primal-dual Goddard problem failed before convergence'')"
  using assms
  by (auto simp: loop_body_unfold ebind_def split: if_splits sum.splits
      dest: append_sequences_error)

lemma get_item_ok:
  "0 \<le> i \<Longrightarrow> i < int (length xs) \<Longrightarrow> get_item xs i = Inr (xs ! nat i)"
  by (simp add: get_item_def py_index_def)

lemma append_sequences_ok:
  assumes "7 \<le> length (xp s)" "xp s ! 3 \<noteq> []" "4 \<le> length (z s)"
  shows "\<exists>q. append_sequences env s = Inr q"
proof -
  from assms have "xp s \<noteq> []" "z s \<noteq> []"
    by auto
  with assms show ?thesis
    by (simp add: append_sequences_def get_item2_def get_item_ok Let_def)
qed

text \<open>A pass raises only when its call has failed or has returned an ill-shaped trajectory.\<close>

lemma loop_body_raise_cause:
  assumes "loop_body env w s = (w', Inl e)"
  shows "\<not> call_fine env (bvp_sol s, ocp s)"
proof
  assume "call_fine env (bvp_sol s, ocp s)"
  then have ok: "success (snd (solve_at env s))" "goddard_shape (fst (solve_at env s))"
    by (simp_all add: call_fine_def solve_at_def)
  from ok(2) obtain q where "append_sequences env (stepped env w s) = Inr q"
    using append_sequences_ok [of "stepped env w s" env]
    by (auto simp: goddard_shape_def stepped_def)
  with ok(1) assms show False
    by (simp add: loop_body_unfold)
qed

subsection \<open>The loop\<close>

lemma while_loop_done: "convergence s \<Longrightarrow> while_loop env w s = Some (w, Inr s)"
  by (subst while_loop.simps) simp

lemma while_loop_raise:
  "\<not> convergence s \<Longrightarrow> loop_body env w s = (w', Inl e) \<Longrightarrow> while_loop env w s = Some (w', Inl e)"
  by (subst while_loop.simps) simp

lemma while_loop_again:
  "\<not> convergence s \<Longrightarrow> loop_body env w s = (w', Inr s') \<Longrightarrow>
     while_loop env w s = while_loop env w' s'"
  by (subst while_loop.simps) simp

lemma elapsed_Suc_shift:
  "elapsed env c (Suc n) = (dtime env (c + 1) - dtime env c) + elapsed env (c + 2) n"
  by (simp add: elapsed_def sum.lessThan_Suc_shift add.commute add.left_commute
      del: sum.lessThan_Suc)

text \<open>The trace of a run of one pass, ended by an exception or by the test of line 45.\<close>

lemma trace_raise:
  assumes "loop_body env w s = (w1, Inl e)" "ocp_eps (ocp s) = eps s"
  shows "loop_trace env w s w1 (Inl e) [(bvp_sol s, ocp s)]"
proof -
  from fst_loop_body [of env w s] assms(1) have "w1 = after_call w s"
    by simp
  with assms(2) show ?thesis
    by (simp add: loop_trace_def after_call_def)
qed

lemma trace_exit:
  assumes "loop_body env w s = (w1, Inr s1)" "convergence s1" "ocp_eps (ocp s) = eps s"
  shows "loop_trace env w s w1 (Inr s1) [(bvp_sol s, ocp s)]"
proof -
  from loop_body_Inr [OF assms(1)] obtain q where
    w1: "w1 = after_call w s" and s1: "s1 = (stepped env w s)\<lparr>seqs := q, iter := iter s + 1\<rparr>"
    by blast
  from assms(2) have le: "eps s \<le> tol s"
    by (simp add: s1 stepped_def)
  have "exit_state env w s [(bvp_sol s, ocp s)] s1"
    using le
    by (simp add: exit_state_def s1 stepped_def solve_at_def ocp_set_eps_def elapsed_def)
  with assms(3) show ?thesis
    by (simp add: loop_trace_def w1 after_call_def)
qed

text \<open>One more pass in front of a run.\<close>

lemma exit_step:
  assumes s1: "s1 = (stepped env w s)\<lparr>seqs := q, iter := iter s + 1\<rparr>"
    and ne: "cs \<noteq> []"
    and ex: "exit_state env (after_call w s) s1 cs s'"
  shows "exit_state env w s ((bvp_sol s, ocp s) # cs) s'"
proof -
  have e1: "eps s1 = eps s * alpha s" "alpha s1 = alpha s" "tol s1 = tol s"
    "iter s1 = iter s + 1"
    "cumul_time s1 = cumul_time s + (dtime env (clock w + 1) - dtime env (clock w))"
    by (simp_all add: s1 stepped_def)
  have cl: "clock (after_call w s) = clock w + 2"
    by (simp add: after_call_def)
  from ne obtain m where m: "length cs = Suc m"
    by (cases cs) simp_all
  from ex have f: "convergence s'" "eps s1 * alpha s1 ^ (length cs - 1) \<le> tol s1"
    "eps s' = eps s1 * alpha s1 ^ length cs" "alpha s' = alpha s1" "tol s' = tol s1"
    "ocp_eps (ocp s') = eps s'" "iter s' = iter s1 + int (length cs)"
    "cumul_time s' = cumul_time s1 + elapsed env (clock (after_call w s)) (length cs)"
    "bvp_sol s' = fst (solve env driver_options (fst (last cs)) (snd (last cs)))"
    "time s' = bvp_time (bvp_sol s')" "xp s' = bvp_xp (bvp_sol s')" "z s' = bvp_z (bvp_sol s')"
    unfolding exit_state_def by blast+
  have g2: "eps s * alpha s ^ (length ((bvp_sol s, ocp s) # cs) - 1) \<le> tol s"
    using f(2) by (simp add: e1 m mult.assoc)
  have g3: "eps s' = eps s * alpha s ^ length ((bvp_sol s, ocp s) # cs)"
    using f(3) by (simp add: e1 mult.assoc)
  have g4: "alpha s' = alpha s" "tol s' = tol s"
    using f(4,5) by (simp_all add: e1)
  have g7: "iter s' = iter s + int (length ((bvp_sol s, ocp s) # cs))"
    using f(7) by (simp add: e1)
  have g8: "cumul_time s' =
      cumul_time s + elapsed env (clock w) (length ((bvp_sol s, ocp s) # cs))"
    using f(8) by (simp add: e1 cl elapsed_Suc_shift [of env "clock w"])
  have g9: "bvp_sol s' = fst (solve env driver_options (fst (last ((bvp_sol s, ocp s) # cs)))
      (snd (last ((bvp_sol s, ocp s) # cs))))"
    using f(9) ne by simp
  show ?thesis
    unfolding exit_state_def using f(1) g2 g3 g4 f(6) g7 g8 g9 f(10,11,12) by blast
qed

lemma trace_step:
  assumes b: "loop_body env w s = (w1, Inr s1)" and nc: "\<not> convergence s1"
    and oe: "ocp_eps (ocp s) = eps s"
    and tr: "loop_trace env w1 s1 w' r cs"
  shows "loop_trace env w s w' r ((bvp_sol s, ocp s) # cs)"
proof -
  from loop_body_Inr [OF b] obtain q where
    w1: "w1 = after_call w s" and s1: "s1 = (stepped env w s)\<lparr>seqs := q, iter := iter s + 1\<rparr>"
    by blast
  have e1: "eps s1 = eps s * alpha s" "alpha s1 = alpha s" "tol s1 = tol s"
    by (simp_all add: s1 stepped_def)
  from nc have gt: "tol s < eps s"
    by (simp add: s1 stepped_def)
  have ww: "calls w1 = calls w @ [(bvp_sol s, ocp s)]" "clock w1 = clock w + 2"
    "files w1 = files w"
    by (simp_all add: w1 after_call_def)
  from tr have t: "calls w' = calls w1 @ cs" "files w' = files w1"
    "clock w' = clock w1 + 2 * length cs" "cs \<noteq> []"
    "map (ocp_eps \<circ> snd) cs = map (\<lambda>k. eps s1 * alpha s1 ^ k) [0..<length cs]"
    "\<forall>k. Suc k < length cs \<longrightarrow> tol s1 < eps s1 * alpha s1 ^ k"
    "\<forall>s'. r = Inr s' \<longrightarrow> exit_state env w1 s1 cs s'"
    unfolding loop_trace_def by blast+
  let ?cs = "(bvp_sol s, ocp s) # cs"
  have c1: "calls w' = calls w @ ?cs"
    using t(1) by (simp add: ww)
  have c2: "files w' = files w"
    using t(2) by (simp add: ww)
  have c3: "clock w' = clock w + 2 * length ?cs"
    using t(3) by (simp add: ww)
  have "map (ocp_eps \<circ> snd) ?cs = eps s # map (\<lambda>k. eps s * alpha s ^ Suc k) [0..<length cs]"
    using t(5) oe by (simp add: e1 mult.assoc)
  also have "\<dots> = map (\<lambda>k. eps s * alpha s ^ k) [0..<Suc (length cs)]"
    by (simp add: map_upt_Suc [of _ "length cs"] del: upt_Suc power_Suc)
  finally have c5: "map (ocp_eps \<circ> snd) ?cs = map (\<lambda>k. eps s * alpha s ^ k) [0..<length ?cs]"
    by simp
  have c6: "\<forall>k. Suc k < length ?cs \<longrightarrow> tol s < eps s * alpha s ^ k"
  proof (intro allI impI)
    fix k assume k: "Suc k < length ?cs"
    show "tol s < eps s * alpha s ^ k"
    proof (cases k)
      case 0
      with gt show ?thesis by simp
    next
      case (Suc j)
      with k have "Suc j < length cs" by simp
      with t(6) have "tol s1 < eps s1 * alpha s1 ^ j" by blast
      then show ?thesis
        by (simp add: e1 Suc mult.assoc)
    qed
  qed
  have c7: "\<forall>s'. r = Inr s' \<longrightarrow> exit_state env w s ?cs s'"
    using t(7) exit_step [OF s1 t(4)] by (simp add: w1)
  show ?thesis
    unfolding loop_trace_def using c1 c2 c3 c5 c6 c7 by blast
qed

text \<open>
  The loop ends when some power of \<open>alpha\<close> brings \<open>eps\<close> to \<open>tol\<close> or below, whatever the
  solver does, after at most that many passes and one more.
\<close>

lemma while_loop_trace:
  "\<not> convergence s \<Longrightarrow> ocp_eps (ocp s) = eps s \<Longrightarrow> eps s * alpha s ^ n \<le> tol s \<Longrightarrow>
     \<exists>w' r cs. while_loop env w s = Some (w', r) \<and> length cs \<le> Suc n
        \<and> loop_trace env w s w' r cs"
proof (induction n arbitrary: w s)
  case 0
  obtain w1 r1 where b: "loop_body env w s = (w1, r1)"
    by (cases "loop_body env w s")
  show ?case
  proof (cases r1)
    case (Inl e)
    from while_loop_raise [OF "0.prems"(1) b [unfolded Inl]]
      trace_raise [OF b [unfolded Inl] "0.prems"(2)]
    show ?thesis
      by (intro exI [of _ w1] exI [of _ "Inl e"] exI [of _ "[(bvp_sol s, ocp s)]"]) simp
  next
    case (Inr s1)
    from loop_body_Inr [OF b [unfolded Inr]] "0.prems"(3) have c: "convergence s1"
      by (auto simp: stepped_def)
    from while_loop_done [OF c] while_loop_again [OF "0.prems"(1) b [unfolded Inr]]
      trace_exit [OF b [unfolded Inr] c "0.prems"(2)]
    show ?thesis
      by (intro exI [of _ w1] exI [of _ "Inr s1"] exI [of _ "[(bvp_sol s, ocp s)]"]) simp
  qed
next
  case (Suc n)
  obtain w1 r1 where b: "loop_body env w s = (w1, r1)"
    by (cases "loop_body env w s")
  show ?case
  proof (cases r1)
    case (Inl e)
    from while_loop_raise [OF Suc.prems(1) b [unfolded Inl]]
      trace_raise [OF b [unfolded Inl] Suc.prems(2)]
    show ?thesis
      by (intro exI [of _ w1] exI [of _ "Inl e"] exI [of _ "[(bvp_sol s, ocp s)]"]) simp
  next
    case (Inr s1)
    note b1 = b [unfolded Inr]
    from loop_body_Inr [OF b1]
    have e: "eps s1 = eps s * alpha s" "alpha s1 = alpha s" "tol s1 = tol s"
      "ocp_eps (ocp s1) = eps s1"
      by (auto simp: stepped_def ocp_set_eps_def)
    show ?thesis
    proof (cases "convergence s1")
      case True
      from while_loop_done [OF True] while_loop_again [OF Suc.prems(1) b1]
        trace_exit [OF b1 True Suc.prems(2)]
      show ?thesis
        by (intro exI [of _ w1] exI [of _ "Inr s1"] exI [of _ "[(bvp_sol s, ocp s)]"]) simp
    next
      case False
      have "eps s1 * alpha s1 ^ n \<le> tol s1"
        using Suc.prems(3) by (simp add: e mult.assoc)
      from Suc.IH [OF False e(4) this, of w1] obtain w' r cs where
        l: "while_loop env w1 s1 = Some (w', r)" and n: "length cs \<le> Suc n"
        and t: "loop_trace env w1 s1 w' r cs"
        by blast
      from while_loop_again [OF Suc.prems(1) b1] l
      have "while_loop env w s = Some (w', r)"
        by simp
      moreover have "length ((bvp_sol s, ocp s) # cs) \<le> Suc (Suc n)"
        using n by simp
      ultimately show ?thesis
        using trace_step [OF b1 False Suc.prems(2) t] by blast
    qed
  qed
qed

text \<open>What any run of the loop does to the list of calls.\<close>

lemma while_loop_calls:
  assumes "while_loop env w s = Some (w', r)"
  shows "\<exists>cs. calls w' = calls w @ cs \<and> files w' = files w \<and> calls_inv env s r cs"
proof -
  have "\<exists>cs. calls (fst (w', r)) = calls w @ cs \<and> files (fst (w', r)) = files w
          \<and> calls_inv env s (snd (w', r)) cs"
  proof (rule while_loop.raw_induct [where P = "\<lambda>env w s wr.
      \<exists>cs. calls (fst wr) = calls w @ cs \<and> files (fst wr) = files w
          \<and> calls_inv env s (snd wr) cs", OF _ assms])
    fix loop :: "env \<Rightarrow> world \<Rightarrow> locals \<Rightarrow> (world \<times> (error + locals)) option"
      and env w s wr
    assume IH: "\<And>env w s wr. loop env w s = Some wr \<Longrightarrow>
        \<exists>cs. calls (fst wr) = calls w @ cs \<and> files (fst wr) = files w
          \<and> calls_inv env s (snd wr) cs"
      and step: "(if convergence s then Some (w, Inr s)
          else case loop_body env w s of
                 (w', Inl e) \<Rightarrow> Some (w', Inl e)
               | (w', Inr s') \<Rightarrow> loop env w' s') = Some wr"
    show "\<exists>cs. calls (fst wr) = calls w @ cs \<and> files (fst wr) = files w
          \<and> calls_inv env s (snd wr) cs"
    proof (cases "convergence s")
      case True
      with step have "wr = (w, Inr s)" by simp
      with True show ?thesis
        by (simp add: calls_inv_def)
    next
      case False
      obtain w1 r1 where b: "loop_body env w s = (w1, r1)"
        by (cases "loop_body env w s")
      show ?thesis
      proof (cases r1)
        case (Inl e)
        with step False b have wr: "wr = (w1, Inl e)" by simp
        from loop_body_Inl [OF b [unfolded Inl]]
        have w1: "w1 = after_call w s"
          and e: "if success (snd (solve_at env s)) then e = IndexError else e = failure"
          by (simp_all add: failure_def)
        have "calls_inv env s (Inl e) [(bvp_sol s, ocp s)]"
          using e False
          by (auto simp: calls_inv_def call_ok_def solve_at_def failure_def split: if_splits)
        then show ?thesis
          by (intro exI [of _ "[(bvp_sol s, ocp s)]"]) (simp add: wr w1 after_call_def)
      next
        case (Inr s1)
        with step False b have l: "loop env w1 s1 = Some wr" by simp
        from IH [OF l] obtain cs where
          cs: "calls (fst wr) = calls w1 @ cs" "files (fst wr) = files w1"
            "calls_inv env s1 (snd wr) cs"
          by blast
        from loop_body_Inr [OF b [unfolded Inr]]
        have w1: "w1 = after_call w s" and ok: "call_ok env (bvp_sol s, ocp s)"
          by (simp_all add: call_ok_def solve_at_def)
        have "calls_inv env s (snd wr) ((bvp_sol s, ocp s) # cs)"
          using cs(3) ok False
          by (auto simp: calls_inv_def split: if_splits)
        then show ?thesis
          using cs(1,2)
          by (intro exI [of _ "(bvp_sol s, ocp s) # cs"]) (simp add: w1 after_call_def)
      qed
    qed
  qed
  then show ?thesis by simp
qed

text \<open>A run of the loop that raises has made a last call that was not fine.\<close>

lemma while_loop_raise_cause:
  assumes "while_loop env w s = Some (w', Inl e)"
  shows "\<exists>cs. calls w' = calls w @ cs \<and> cs \<noteq> [] \<and> \<not> call_fine env (last cs)"
proof -
  have "\<forall>e'. snd (w', Inl e :: error + locals) = Inl e' \<longrightarrow>
      (\<exists>cs. calls (fst (w', Inl e :: error + locals)) = calls w @ cs \<and> cs \<noteq> []
         \<and> \<not> call_fine env (last cs))"
  proof (rule while_loop.raw_induct [where P = "\<lambda>env w s wr.
      \<forall>e. snd wr = Inl e \<longrightarrow>
        (\<exists>cs. calls (fst wr) = calls w @ cs \<and> cs \<noteq> [] \<and> \<not> call_fine env (last cs))",
      OF _ assms])
    fix loop :: "env \<Rightarrow> world \<Rightarrow> locals \<Rightarrow> (world \<times> (error + locals)) option"
      and env w s wr
    assume IH: "\<And>env w s wr. loop env w s = Some wr \<Longrightarrow>
        \<forall>e. snd wr = Inl e \<longrightarrow>
          (\<exists>cs. calls (fst wr) = calls w @ cs \<and> cs \<noteq> [] \<and> \<not> call_fine env (last cs))"
      and step: "(if convergence s then Some (w, Inr s)
          else case loop_body env w s of
                 (w', Inl e) \<Rightarrow> Some (w', Inl e)
               | (w', Inr s') \<Rightarrow> loop env w' s') = Some wr"
    show "\<forall>e. snd wr = Inl e \<longrightarrow>
        (\<exists>cs. calls (fst wr) = calls w @ cs \<and> cs \<noteq> [] \<and> \<not> call_fine env (last cs))"
    proof (intro allI impI)
      fix e assume e: "snd wr = Inl e"
      show "\<exists>cs. calls (fst wr) = calls w @ cs \<and> cs \<noteq> [] \<and> \<not> call_fine env (last cs)"
      proof (cases "convergence s")
        case True
        with step e show ?thesis by auto
      next
        case False
        obtain w1 r1 where b: "loop_body env w s = (w1, r1)"
          by (cases "loop_body env w s")
        have w1: "w1 = after_call w s"
          using fst_loop_body [of env w s] b by simp
        show ?thesis
        proof (cases r1)
          case (Inl e1)
          with step False b have wr: "wr = (w1, Inl e1)" by simp
          from loop_body_raise_cause [OF b [unfolded Inl]]
          show ?thesis
            by (intro exI [of _ "[(bvp_sol s, ocp s)]"]) (simp add: wr w1 after_call_def)
        next
          case (Inr s1)
          with step False b have l: "loop env w1 s1 = Some wr" by simp
          from IH [OF l] e obtain cs where
            cs: "calls (fst wr) = calls w1 @ cs" "cs \<noteq> []" "\<not> call_fine env (last cs)"
            by blast
          then show ?thesis
            by (intro exI [of _ "(bvp_sol s, ocp s) # cs"]) (simp add: w1 after_call_def)
        qed
      qed
    qed
  qed
  then show ?thesis by simp
qed

subsection \<open>The constants of the driver\<close>

lemma bound_below: "j < 34 \<Longrightarrow> (1::real) / 10 ^ 10 < 1 * (1 / 2) ^ j"
proof -
  assume "j < 34"
  then have "j \<le> 33" by simp
  have "(1::real) / 10 ^ 10 < (1 / 2) ^ 33"
    by (simp add: power_divide)
  also have "((1::real) / 2) ^ 33 \<le> (1 / 2) ^ j"
    using \<open>j \<le> 33\<close> by (intro power_decreasing) simp_all
  finally show ?thesis
    by simp
qed

lemma bound_at: "(1::real) * (1 / 2) ^ 34 \<le> 1 / 10 ^ 10"
  by (simp add: power_divide)


lemma geometric_decreasing:
  assumes "0 < e" "0 < a" "a < (1::real)"
  shows "sorted_wrt (>) (map (\<lambda>k. e * a ^ k) [0..<n])"
proof -
  have "sorted_wrt (\<lambda>i j. e * a ^ i > e * a ^ j) [0..<n]"
  proof (rule sorted_wrt_mono_rel [OF _ sorted_wrt_upt])
    fix i j :: nat
    assume "i < j"
    then have "a ^ j < a ^ i"
      using assms by (intro power_strict_decreasing) simp_all
    then show "e * a ^ j < e * a ^ i"
      using assms(1) by simp
  qed
  then show ?thesis
    by (simp add: sorted_wrt_map)
qed

lemma power_Suc_mult: "e * (a::real) ^ Suc n = e * a ^ n * a"
  by simp

lemma power_Suc_div: "a \<noteq> 0 \<Longrightarrow> e * a ^ Suc n / a = e * (a::real) ^ n"
  by simp

subsection \<open>The whole program\<close>

lemma start_simps:
  "eps (start env) = 1" "alpha (start env) = 1 / 2" "tol (start env) = 1 / 10 ^ 10"
  "\<not> convergence (start env)" "iter (start env) = 0" "cumul_time (start env) = 0"
  "bvp_sol (start env) = \<lparr> bvp_time = fst (ocp_initialize env),
      bvp_xp = fst (snd (ocp_initialize env)), bvp_z = snd (snd (ocp_initialize env)) \<rparr>"
  "ocp (start env) = ocp_set_eps (new_ocp env) 1"
  by (simp_all add: start_def Let_def split_beta)

lemma start_ocp_eps: "ocp_eps (ocp (start env)) = eps (start env)"
  by (simp add: start_simps ocp_set_eps_def)

lemma world0_simps: "clock world0 = 0" "calls world0 = []" "files world0 = []"
  by (simp_all add: world0_def)

text \<open>The loop of \<open>main_primal_dual\<close> ends, whatever the solver does.\<close>

lemma main_loop_trace:
  "\<exists>w r cs. while_loop env world0 (start env) = Some (w, r) \<and> length cs \<le> 35
      \<and> loop_trace env world0 (start env) w r cs"
proof -
  have "eps (start env) * alpha (start env) ^ 34 \<le> tol (start env)"
    using bound_at by (simp add: start_simps)
  from while_loop_trace [OF start_simps(4) start_ocp_eps this, of env world0]
  show ?thesis by simp
qed

text \<open>A run of that loop that leaves by the test of line 45 has made 35 calls.\<close>

lemma exit_after_35:
  assumes "loop_trace env world0 (start env) w (Inr s) cs"
  shows "length cs = 35"
proof -
  from assms have ne: "cs \<noteq> []"
    and ab: "\<forall>k. Suc k < length cs \<longrightarrow> tol (start env) < eps (start env) * alpha (start env) ^ k"
    and ex: "exit_state env world0 (start env) cs s"
    unfolding loop_trace_def by blast+
  from ex have le: "eps (start env) * alpha (start env) ^ (length cs - 1) \<le> tol (start env)"
    unfolding exit_state_def by blast
  have "\<not> length cs - 1 < 34"
  proof
    assume "length cs - 1 < 34"
    from bound_below [OF this] le show False
      by (simp add: start_simps)
  qed
  moreover have "\<not> Suc 34 < length cs"
  proof
    assume "Suc 34 < length cs"
    with ab have "tol (start env) < eps (start env) * alpha (start env) ^ 34"
      by blast
    with bound_at show False
      by (simp add: start_simps)
  qed
  ultimately show ?thesis
    using ne by (cases cs) simp_all
qed

lemma calls_finish: "calls (fst (finish env w s)) = calls w"
  by (simp add: finish_def Let_def split_beta split: sum.splits)

text \<open>When lines 72 to 106 return, both documents have been written.\<close>

lemma finish_Inr:
  assumes "finish env w s = (w', Inr v)"
  shows "alpha s \<noteq> 0 \<and> v = optimal_solution s \<and> w' = w\<lparr>files := files w @ documents env s\<rparr>"
  using assms
  by (auto simp: finish_def Let_def split_beta optimal_solution_def initial_solution_def
      documents_def split: if_splits sum.splits)

lemma finish_ok:
  assumes "goddard_shape (bvp_sol s)" "xp s = bvp_xp (bvp_sol s)" "z s = bvp_z (bvp_sol s)"
    "time s = bvp_time (bvp_sol s)" "alpha s \<noteq> 0"
  shows "finish env w s = (w\<lparr>files := files w @ documents env s\<rparr>, Inr (optimal_solution s))"
proof -
  from assms(1-4)
  have sh: "7 \<le> length (xp s)" "xp s ! 0 \<noteq> []" "xp s ! 3 \<noteq> []" "4 \<le> length (z s)"
    and pl: "length (time s) = length (z s ! 0)"
    by (simp_all add: goddard_shape_def)
  then have ne: "xp s \<noteq> []" "z s \<noteq> []"
    by auto
  have r1: "get_item2 (xp s) 3 0 = Inr (xp s ! 3 ! 0)"
    using sh by (simp add: get_item2_def get_item_ok)
  have r2: "get_item (z s) 0 = Inr (z s ! 0)"
    using ne by (simp add: get_item_ok)
  have "\<exists>v. get_item2 (xp s) 0 (- 1) = Inr v"
    using sh ne by (simp add: get_item2_def get_item_ok get_item_def py_index_def)
  then obtain v where r3: "get_item2 (xp s) 0 (- 1) = Inr v" by blast
  show ?thesis
    using assms(5) pl
    by (simp add: finish_def Let_def split_beta r1 r2 r3 optimal_solution_def
        initial_solution_def documents_def)
qed

lemma main_cases:
  assumes "main_primal_dual env = Some (w, r)"
  obtains (raise) e where "while_loop env world0 (start env) = Some (w, Inl e)" "r = Inl e"
  | (return) w0 s where "while_loop env world0 (start env) = Some (w0, Inr s)"
      "finish env w0 s = (w, r)"
  using assms
  by (auto simp: main_primal_dual_def split: option.splits prod.splits sum.splits)

lemma main_terminates: "\<exists>w r. main_primal_dual env = Some (w, r)"
proof -
  from main_loop_trace obtain w r where l: "while_loop env world0 (start env) = Some (w, r)"
    by blast
  show ?thesis
  proof (cases r)
    case (Inl e)
    with l show ?thesis by (simp add: main_primal_dual_def)
  next
    case (Inr s)
    with l show ?thesis
      by (cases "finish env w s") (simp add: main_primal_dual_def)
  qed
qed

text \<open>Every run of \<open>main_primal_dual\<close>, seen through the calls it has made.\<close>

lemma main_trace:
  assumes "main_primal_dual env = Some (w, r)"
  shows "\<exists>w0 r0. while_loop env world0 (start env) = Some (w0, r0)
     \<and> loop_trace env world0 (start env) w0 r0 (calls w) \<and> length (calls w) \<le> 35
     \<and> calls w0 = calls w"
proof -
  from main_loop_trace [of env] obtain w0 r0 cs where
    l: "while_loop env world0 (start env) = Some (w0, r0)" and n: "length cs \<le> 35"
    and t: "loop_trace env world0 (start env) w0 r0 cs"
    by blast
  from t have c0: "calls w0 = cs"
    by (simp add: loop_trace_def world0_simps)
  have "calls w = calls w0"
    using assms
  proof (cases rule: main_cases)
    case (raise e)
    with l show ?thesis by simp
  next
    case (return w1 s)
    with l calls_finish [of env w1 s] show ?thesis by simp
  qed
  with l n t c0 show ?thesis
    by auto
qed

text \<open>A run of \<open>main_primal_dual\<close> that returns.\<close>

lemma main_returns:
  assumes "main_primal_dual env = Some (w, Inr v)"
  shows "\<exists>w0 s. while_loop env world0 (start env) = Some (w0, Inr s)
     \<and> loop_trace env world0 (start env) w0 (Inr s) (calls w)
     \<and> exit_state env world0 (start env) (calls w) s
     \<and> length (calls w) = 35 \<and> calls w \<noteq> []
     \<and> v = optimal_solution s \<and> files w = documents env s"
proof -
  from assms obtain w0 s where
    l: "while_loop env world0 (start env) = Some (w0, Inr s)" and f: "finish env w0 s = (w, Inr v)"
    by (cases rule: main_cases) simp_all
  from main_trace [OF assms] l
  have t: "loop_trace env world0 (start env) w0 (Inr s) (calls w)"
    by simp
  then have ex: "exit_state env world0 (start env) (calls w) s" and ne: "calls w \<noteq> []"
    and fw: "files w0 = []"
    by (simp_all add: loop_trace_def world0_simps)
  from finish_Inr [OF f] fw have "v = optimal_solution s" "files w = documents env s"
    by simp_all
  with l t ex ne exit_after_35 [OF t] show ?thesis
    by blast
qed

text \<open>A run all of whose calls were fine returns.\<close>

lemma main_returns_if_ok:
  assumes m: "main_primal_dual env = Some (w, r)" and ok: "run_ok env w"
  shows "\<exists>v. r = Inr v"
  using m
proof (cases rule: main_cases)
  case (raise e)
  from while_loop_raise_cause [OF raise(1)] obtain cs where
    cs: "calls w = cs" "cs \<noteq> []" "\<not> call_fine env (last cs)"
    by (auto simp: world0_simps)
  from cs(2) have "last cs \<in> set cs"
    by simp
  with ok cs(1) have "call_fine env (last cs)"
    by (simp add: run_ok_def list_all_iff)
  with cs(3) show ?thesis by simp
next
  case (return w0 s)
  from main_trace [OF m] return(1)
  have t: "loop_trace env world0 (start env) w0 (Inr s) (calls w)"
    by simp
  then have ex: "exit_state env world0 (start env) (calls w) s" and ne: "calls w \<noteq> []"
    by (simp_all add: loop_trace_def)
  from ex
  have b: "bvp_sol s = fst (solve env driver_options (fst (last (calls w))) (snd (last (calls w))))"
    and x: "xp s = bvp_xp (bvp_sol s)" "z s = bvp_z (bvp_sol s)" "time s = bvp_time (bvp_sol s)"
    and a: "alpha s = alpha (start env)"
    unfolding exit_state_def by blast+
  from ne have "last (calls w) \<in> set (calls w)"
    by simp
  with ok have "call_fine env (last (calls w))"
    by (simp add: run_ok_def list_all_iff)
  then have "goddard_shape (bvp_sol s)"
    unfolding b by (simp add: call_fine_def)
  moreover from a have "alpha s \<noteq> 0"
    by (simp add: start_simps)
  ultimately have "finish env w0 s =
      (w0\<lparr>files := files w0 @ documents env s\<rparr>, Inr (optimal_solution s))"
    using x by (intro finish_ok)
  with return(2) have "r = Inr (optimal_solution s)"
    by simp
  then show ?thesis
    by blast
qed

lemma run_ok_converging: "run_ok env_converging w"
  by (simp add: run_ok_def call_fine_def list_all_iff env_converging_def goddard_shape_def
      sol_ok_def)

lemma main_converging: "\<exists>w v. main_primal_dual env_converging = Some (w, Inr v)"
proof -
  from main_terminates [of env_converging] obtain w r where
    m: "main_primal_dual env_converging = Some (w, r)"
    by blast
  from main_returns_if_ok [OF m run_ok_converging] m show ?thesis
    by blast
qed

text \<open>In a run that returns every call has succeeded.\<close>

lemma main_returns_calls_ok:
  assumes "main_primal_dual env = Some (w, Inr v)"
  shows "list_all (call_ok env) (calls w)"
proof -
  from assms obtain w0 s where
    l: "while_loop env world0 (start env) = Some (w0, Inr s)" and f: "finish env w0 s = (w, Inr v)"
    by (cases rule: main_cases) simp_all
  from while_loop_calls [OF l] obtain cs where
    cs: "calls w0 = cs" "calls_inv env (start env) (Inr s) cs"
    by (auto simp: world0_simps)
  from cs(2) have a: "list_all (call_ok env) (butlast cs)"
    and ne: "cs \<noteq> []"
    by (simp_all add: calls_inv_def start_simps)
  from cs(2) have "call_ok env (last cs)"
    by (auto simp: calls_inv_def start_simps)
  with a have "list_all (call_ok env) (butlast cs @ [last cs])"
    by simp
  with ne have "list_all (call_ok env) cs"
    by simp
  moreover have "calls w = calls w0"
    using calls_finish [of env w0 s] f by simp
  ultimately show ?thesis
    by (simp add: cs(1))
qed

subsection \<open>Termination and the sequence of parameters\<close>

lemma last_call_eps:
  assumes "cs \<noteq> []" "map (ocp_eps \<circ> snd) cs = map (\<lambda>k. e * a ^ k) [0..<length cs]"
  shows "ocp_eps (snd (last cs)) = e * a ^ (length cs - 1)"
proof -
  from assms(1) obtain m where m: "length cs = Suc m"
    by (cases cs) simp_all
  have "ocp_eps (snd (last cs)) = last (map (ocp_eps \<circ> snd) cs)"
    using assms(1) by (simp add: last_map)
  also have "\<dots> = last (map (\<lambda>k. e * a ^ k) [0..<Suc m])"
    using assms(2) by (simp only: m)
  also have "\<dots> = e * a ^ m"
    by simp
  finally show ?thesis
    by (simp add: m)
qed

lemma returned_eps:
  assumes "main_primal_dual env = Some (w, Inr opt)"
  shows "\<exists>w0 s. while_loop env world0 (start env) = Some (w0, Inr s)
     \<and> opt = optimal_solution s
     \<and> eps s / alpha s = ocp_eps (snd (last (calls w)))
     \<and> eps s = ocp_eps (snd (last (calls w))) * alpha s
     \<and> ocp_eps (ocp s) = eps s"
proof -
  from main_returns [OF assms] obtain w0 s where
    l: "while_loop env world0 (start env) = Some (w0, Inr s)"
    and t: "loop_trace env world0 (start env) w0 (Inr s) (calls w)"
    and ex: "exit_state env world0 (start env) (calls w) s"
    and ne: "calls w \<noteq> []" and v: "opt = optimal_solution s"
    by blast
  from t have g: "map (ocp_eps \<circ> snd) (calls w)
         = map (\<lambda>k. eps (start env) * alpha (start env) ^ k) [0..<length (calls w)]"
    unfolding loop_trace_def by blast
  from ne obtain m where m: "length (calls w) = Suc m"
    by (cases "calls w") simp_all
  have le: "ocp_eps (snd (last (calls w))) = eps (start env) * alpha (start env) ^ m"
    using last_call_eps [OF ne g] by (simp add: m)
  from ex have es: "eps s = eps (start env) * alpha (start env) ^ Suc m"
    and al: "alpha s = alpha (start env)" and oe: "ocp_eps (ocp s) = eps s"
    unfolding exit_state_def m by blast+
  have a0: "alpha (start env) \<noteq> 0"
    by (simp add: start_simps)
  have q: "eps s / alpha s = ocp_eps (snd (last (calls w)))"
    unfolding es al le by (rule power_Suc_div [OF a0])
  have p: "eps s = ocp_eps (snd (last (calls w))) * alpha s"
    unfolding es al le by (rule power_Suc_mult)
  from l v q p oe show ?thesis
    by blast
qed




text \<open>
  C6. In every run of \<open>main_primal_dual\<close> the contract passed to the \<open>k\<close>-th inner solve
  (counting from 0) holds \<open>eps_0 * alpha^k\<close>; these values are strictly decreasing; every
  solve but the last was at a value above \<open>tol\<close>, so the loop has gone on only then; and
  when the program returns, the last solve was at a value not above \<open>tol\<close>.
\<close>

theorem continuation_parameter_geometric:
  "\<exists>w r. main_primal_dual env = Some (w, r) \<and> calls w \<noteq> []
     \<and> map (ocp_eps \<circ> snd) (calls w)
         = map (\<lambda>k. eps (start env) * alpha (start env) ^ k) [0..<length (calls w)]
     \<and> sorted_wrt (>) (map (ocp_eps \<circ> snd) (calls w))
     \<and> (\<forall>k. Suc k < length (calls w) \<longrightarrow>
           tol (start env) < eps (start env) * alpha (start env) ^ k)
     \<and> (\<forall>v. r = Inr v \<longrightarrow>
           eps (start env) * alpha (start env) ^ (length (calls w) - 1) \<le> tol (start env))"
proof -
  from main_terminates [of env] obtain w r where m: "main_primal_dual env = Some (w, r)"
    by blast
  from main_trace [OF m] obtain w0 r0 where
    t: "loop_trace env world0 (start env) w0 r0 (calls w)"
    by blast
  then have ne: "calls w \<noteq> []"
    and g: "map (ocp_eps \<circ> snd) (calls w)
         = map (\<lambda>k. eps (start env) * alpha (start env) ^ k) [0..<length (calls w)]"
    and a: "\<forall>k. Suc k < length (calls w) \<longrightarrow>
           tol (start env) < eps (start env) * alpha (start env) ^ k"
    unfolding loop_trace_def by blast+
  have d: "sorted_wrt (>) (map (ocp_eps \<circ> snd) (calls w))"
    unfolding g by (rule geometric_decreasing) (simp_all add: start_simps)
  have e: "eps (start env) * alpha (start env) ^ (length (calls w) - 1) \<le> tol (start env)"
    if "r = Inr v" for v
  proof -
    from main_returns [OF m [unfolded that]] obtain s where
      "exit_state env world0 (start env) (calls w) s"
      by blast
    then show ?thesis
      unfolding exit_state_def by blast
  qed
  from m ne g d a e show ?thesis
    by blast
qed

theorem continuation_parameter_geometric_witness:
  "\<exists>w v. main_primal_dual env_converging = Some (w, Inr v)
     \<and> map (ocp_eps \<circ> snd) (calls w)
         = map (\<lambda>k. eps (start env_converging) * alpha (start env_converging) ^ k)
             [0..<length (calls w)]
     \<and> eps (start env_converging) * alpha (start env_converging) ^ (length (calls w) - 1)
         \<le> tol (start env_converging)"
proof -
  from main_converging obtain w0 v where m: "main_primal_dual env_converging = Some (w0, Inr v)"
    by blast
  from continuation_parameter_geometric [of env_converging] m show ?thesis
    by auto
qed

text \<open>
  C10. When \<open>main_primal_dual\<close> returns, the last inner solve has succeeded, and the \<open>eps\<close>
  entry of the record persisted under \<open>optimal_solution\<close> in the pickle document, which is
  the record returned, is the parameter the contract held at that solve; at the exit of
  the loop the variable \<open>eps\<close> and the contract hold that value times \<open>alpha\<close>.
\<close>

theorem recorded_eps_is_last_solved:
  assumes "main_primal_dual env = Some (w, Inr opt)"
  shows "calls w \<noteq> []
     \<and> success (snd (solve env driver_options (fst (last (calls w))) (snd (last (calls w)))))
     \<and> (\<exists>doc record.
           map_of (files w) ''Goddard/results_goddard_primal_dual.pickle'' = Some doc
           \<and> dict_get doc ''optimal_solution'' = Some record
           \<and> dict_get record ''eps'' = Some (PyFloat (ocp_eps (snd (last (calls w)))))
           \<and> record = opt)
     \<and> (\<exists>w0 s. while_loop env world0 (start env) = Some (w0, Inr s)
           \<and> eps s = ocp_eps (snd (last (calls w))) * alpha s
           \<and> ocp_eps (ocp s) = eps s)"
proof -
  from returned_eps [OF assms] obtain w0 s where
    l: "while_loop env world0 (start env) = Some (w0, Inr s)"
    and v: "opt = optimal_solution s"
    and q: "eps s / alpha s = ocp_eps (snd (last (calls w)))"
    and p: "eps s = ocp_eps (snd (last (calls w))) * alpha s"
    and oe: "ocp_eps (ocp s) = eps s"
    by blast
  from main_returns [OF assms] obtain s' where
    ne: "calls w \<noteq> []" and v': "opt = optimal_solution s'"
    and fl: "files w = documents env s'"
    by blast
  from ne have "last (calls w) \<in> set (calls w)"
    by simp
  with main_returns_calls_ok [OF assms] have "call_ok env (last (calls w))"
    by (simp add: list_all_iff)
  then have sc: "success (snd (solve env driver_options (fst (last (calls w)))
      (snd (last (calls w)))))"
    by (simp add: call_ok_def)
  have e: "dict_get opt ''eps'' = Some (PyFloat (ocp_eps (snd (last (calls w)))))"
    by (simp add: v optimal_solution_def q)
  have "map_of (files w) ''Goddard/results_goddard_primal_dual.pickle'' =
      Some (PyDict [(''initial_solution'', initial_solution env), (''optimal_solution'', opt)])"
    by (simp add: fl documents_def v')
  moreover have "dict_get (PyDict [(''initial_solution'', initial_solution env),
      (''optimal_solution'', opt)]) ''optimal_solution'' = Some opt"
    by simp
  ultimately have d: "\<exists>doc record.
           map_of (files w) ''Goddard/results_goddard_primal_dual.pickle'' = Some doc
           \<and> dict_get doc ''optimal_solution'' = Some record
           \<and> dict_get record ''eps'' = Some (PyFloat (ocp_eps (snd (last (calls w)))))
           \<and> record = opt"
    using e by blast
  from ne sc d l p oe show ?thesis
    by blast
qed

theorem recorded_eps_is_last_solved_witness:
  "\<exists>w opt doc. main_primal_dual env_converging = Some (w, Inr opt)
     \<and> map_of (files w) ''Goddard/results_goddard_primal_dual.pickle'' = Some doc
     \<and> dict_get doc ''optimal_solution'' = Some opt
     \<and> dict_get opt ''eps'' = Some (PyFloat (ocp_eps (snd (last (calls w)))))"
proof -
  from main_converging obtain w opt where
    m: "main_primal_dual env_converging = Some (w, Inr opt)"
    by blast
  from recorded_eps_is_last_solved [OF m] m show ?thesis
    by blast
qed

subsection \<open>The persisted documents\<close>

text \<open>
  C4 (amended). When \<open>main_primal_dual\<close> returns, the pickle document holds, under
  \<open>optimal_solution\<close>, the time grid, \<open>xp\<close> and \<open>z\<close> returned by the last solve, the \<open>eps\<close> of
  the last solve, the summed solve time and the number of iterations; the JSON document
  holds the time grid, \<open>xp\<close> and \<open>z\<close> and nothing else.
\<close>

theorem persisted_documents:
  assumes "main_primal_dual env = Some (w, Inr opt)"
  shows "\<exists>t x u e T n.
       opt = PyDict [(''time'', Array1 t), (''xp'', Array2 x), (''z'', Array2 u),
                     (''eps'', PyFloat e), (''alpha'', PyFloat (alpha (start env))),
                     (''exec_time'', PyFloat T), (''iter'', PyInt n)]
     \<and> files w =
         [(''Goddard/results_goddard_primal_dual.pickle'',
           PyDict [(''initial_solution'', initial_solution env), (''optimal_solution'', opt)]),
          (''Goddard/results_goddard_primal_dual.json'',
           PyDict [(''t'', List1 t), (''xp'', List2 x), (''z'', List2 u)])]
     \<and> calls w \<noteq> []
     \<and> (t, x, u) = trajectory (last_solve env w)
     \<and> e = ocp_eps (snd (last (calls w)))
     \<and> T = elapsed env 0 (length (calls w))
     \<and> n = int (length (calls w))"
proof -
  from main_returns [OF assms] obtain w0 s where
    l: "while_loop env world0 (start env) = Some (w0, Inr s)"
    and ex: "exit_state env world0 (start env) (calls w) s"
    and ne: "calls w \<noteq> []" and v: "opt = optimal_solution s"
    and fl: "files w = documents env s"
    by blast
  from ex have al: "alpha s = alpha (start env)"
    and it: "iter s = iter (start env) + int (length (calls w))"
    and ct: "cumul_time s = cumul_time (start env) + elapsed env (clock world0) (length (calls w))"
    and bs: "bvp_sol s = last_solve env w"
    and tr: "time s = bvp_time (bvp_sol s)" "xp s = bvp_xp (bvp_sol s)" "z s = bvp_z (bvp_sol s)"
    unfolding exit_state_def last_solve_def by blast+
  from returned_eps [OF assms] l
  have q: "eps s / alpha s = ocp_eps (snd (last (calls w)))"
    by auto
  have a3: "cumul_time s = elapsed env 0 (length (calls w))"
    using ct by (simp add: start_simps world0_simps)
  have a4: "iter s = int (length (calls w))"
    using it by (simp add: start_simps)
  have o: "opt =
      PyDict [(''time'', Array1 (time s)), (''xp'', Array2 (xp s)), (''z'', Array2 (z s)),
              (''eps'', PyFloat (ocp_eps (snd (last (calls w))))),
              (''alpha'', PyFloat (alpha (start env))),
              (''exec_time'', PyFloat (elapsed env 0 (length (calls w)))),
              (''iter'', PyInt (int (length (calls w))))]"
    unfolding v optimal_solution_def q
    unfolding al a3 a4
    by (rule refl)
  have t: "(time s, xp s, z s) = trajectory (last_solve env w)"
    using tr bs by (simp add: trajectory_def)
  have f: "files w =
         [(''Goddard/results_goddard_primal_dual.pickle'',
           PyDict [(''initial_solution'', initial_solution env), (''optimal_solution'', opt)]),
          (''Goddard/results_goddard_primal_dual.json'',
           PyDict [(''t'', List1 (time s)), (''xp'', List2 (xp s)), (''z'', List2 (z s))])]"
    by (simp add: fl documents_def v)
  from o f ne t show ?thesis
    by blast
qed

theorem persisted_documents_witness:
  "\<exists>w opt. main_primal_dual env_converging = Some (w, Inr opt)
     \<and> map fst (files w) = [''Goddard/results_goddard_primal_dual.pickle'',
                             ''Goddard/results_goddard_primal_dual.json'']
     \<and> dict_keys opt = [''time'', ''xp'', ''z'', ''eps'', ''alpha'', ''exec_time'', ''iter'']"
proof -
  from main_converging obtain w opt where
    m: "main_primal_dual env_converging = Some (w, Inr opt)"
    by blast
  from persisted_documents [OF m] obtain t x u e T n where
    "opt = PyDict [(''time'', Array1 t), (''xp'', Array2 x), (''z'', Array2 u),
                     (''eps'', PyFloat e), (''alpha'', PyFloat (alpha (start env_converging))),
                     (''exec_time'', PyFloat T), (''iter'', PyInt n)]"
    "files w =
         [(''Goddard/results_goddard_primal_dual.pickle'',
           PyDict [(''initial_solution'', initial_solution env_converging),
                   (''optimal_solution'', opt)]),
          (''Goddard/results_goddard_primal_dual.json'',
           PyDict [(''t'', List1 t), (''xp'', List2 x), (''z'', List2 u)])]"
    by blast
  with m show ?thesis
    by simp
qed

text \<open>
  C4 as stated fails for the JSON document: its keys are \<open>t\<close>, \<open>xp\<close> and \<open>z\<close>; it has no
  entry for \<open>eps\<close>, for the elapsed time or for the iteration count.
\<close>

theorem json_document_lacks_eps:
  "written env_converging ''Goddard/results_goddard_primal_dual.json'' =
     Some (PyDict [(''t'', List1 [0, 1]),
                   (''xp'', List2 [[1, 1], [1, 1], [1, 1], [1, 1], [1, 1], [1, 1], [1, 1]]),
                   (''z'', List2 [[0, 0], [0, 0], [0, 0], [0, 0]])])
   \<and> map_option dict_keys (written env_converging ''Goddard/results_goddard_primal_dual.json'')
       = Some [''t'', ''xp'', ''z'']
   \<and> map_option (\<lambda>d. dict_get d ''eps'')
        (written env_converging ''Goddard/results_goddard_primal_dual.json'') = Some None
   \<and> map_option (\<lambda>d. dict_get d ''exec_time'')
        (written env_converging ''Goddard/results_goddard_primal_dual.json'') = Some None
   \<and> map_option (\<lambda>d. dict_get d ''iter'')
        (written env_converging ''Goddard/results_goddard_primal_dual.json'') = Some None"
proof -
  from main_converging obtain w v where m: "main_primal_dual env_converging = Some (w, Inr v)"
    by blast
  from main_returns [OF m] obtain s where
    ex: "exit_state env_converging world0 (start env_converging) (calls w) s"
    and fl: "files w = documents env_converging s"
    by blast
  from ex have "bvp_sol s = sol_ok"
    and tr: "time s = bvp_time (bvp_sol s)" "xp s = bvp_xp (bvp_sol s)" "z s = bvp_z (bvp_sol s)"
    unfolding exit_state_def by (simp_all add: env_converging_def)
  then have t: "time s = [0, 1]"
    "xp s = [[1, 1], [1, 1], [1, 1], [1, 1], [1, 1], [1, 1], [1, 1]]"
    "z s = [[0, 0], [0, 0], [0, 0], [0, 0]]"
    by (simp_all add: sol_ok_def)
  have "written env_converging ''Goddard/results_goddard_primal_dual.json'' =
     Some (PyDict [(''t'', List1 [0, 1]),
                   (''xp'', List2 [[1, 1], [1, 1], [1, 1], [1, 1], [1, 1], [1, 1], [1, 1]]),
                   (''z'', List2 [[0, 0], [0, 0], [0, 0], [0, 0]])])"
    by (simp add: written_def m fl documents_def t)
  then show ?thesis
    by simp
qed

subsection \<open>Failure of an inner solve, and the first solve\<close>

lemma last_or_butlast:
  assumes "x \<in> set xs"
  shows "x \<in> set (butlast xs) \<or> x = last xs"
proof -
  from assms have "xs \<noteq> []" by auto
  then have "xs = butlast xs @ [last xs]" by simp
  then have "set xs = set (butlast xs) \<union> {last xs}"
    by (metis Un_insert_right list.simps(15) set_append sup_bot.right_neutral list.set(1))
  with assms show ?thesis by auto
qed

text \<open>
  C3 (amended). When an inner solve reports failure, \<open>main_primal_dual\<close> does not mask
  it: the run ends at that solve, which is the last call made to the solver, by raising
  the exception of line 53, whose only content is the fixed message; no result document
  has been written. Neither the trajectory nor \<open>eps\<close> is attached to the exception.
\<close>

theorem inner_failure_surfaces_as_exception:
  assumes "main_primal_dual env = Some (w, r)"
    and "(b, c) \<in> set (calls w)"
    and "\<not> success (snd (solve env driver_options b c))"
  shows "r = Inl (Exception ''Primal-dual Goddard problem failed before convergence'')
     \<and> files w = [] \<and> last (calls w) = (b, c)"
proof -
  have key: "r' = Inl failure \<and> last cs = (b, c)"
    if "calls_inv env s0 r' cs" "(b, c) \<in> set cs" for s0 r' cs
  proof -
    from that(1) have all: "list_all (call_ok env) (butlast cs)"
      and iff: "(r' = Inl failure) = (cs \<noteq> [] \<and> \<not> call_ok env (last cs))"
      by (simp_all add: calls_inv_def)
    from assms(3) have nok: "\<not> call_ok env (b, c)"
      by (simp add: call_ok_def)
    with all have "(b, c) \<notin> set (butlast cs)"
      by (auto simp: list_all_iff)
    with last_or_butlast [OF that(2)] have l: "last cs = (b, c)"
      by simp
    from that(2) have "cs \<noteq> []" by auto
    with iff l nok show ?thesis by simp
  qed
  from assms(1) show ?thesis
  proof (cases rule: main_cases)
    case (raise e)
    from while_loop_calls [OF raise(1)] obtain cs where
      cs: "calls w = cs" "files w = []" "calls_inv env (start env) (Inl e) cs"
      by (auto simp: world0_simps)
    from key [OF cs(3)] assms(2) cs(1) have "Inl e = (Inl failure :: error + locals)" "last cs = (b, c)"
      by simp_all
    with raise(2) cs show ?thesis
      by (simp add: failure_def)
  next
    case (return w0 s)
    from while_loop_calls [OF return(1)] obtain cs where
      cs: "calls w0 = cs" "calls_inv env (start env) (Inr s) cs"
      by (auto simp: world0_simps)
    have "calls w = calls w0"
      using calls_finish [of env w0 s] return(2) by simp
    with key [OF cs(2)] assms(2) cs(1) have "(Inr s :: error + locals) = Inl failure"
      by simp
    then show ?thesis by simp
  qed
qed

lemma bvp_sol_start_converging: "bvp_sol (start env_converging) = guess"
  by (simp add: start_simps env_converging_def trajectory_def guess_def)

lemma main_failing_at_once:
  "main_primal_dual env_failing_at_once =
     Some (\<lparr> clock = 2, calls = [(guess, \<lparr> ocp_eps = 1 \<rparr>)], files = [] \<rparr>,
           Inl (Exception ''Primal-dual Goddard problem failed before convergence''))"
proof -
  let ?env = env_failing_at_once
  have "\<not> success (snd (solve_at ?env (start ?env)))"
    by (simp add: solve_at_def env_failing_at_once_def)
  from while_loop_raise [OF start_simps(4) loop_body_failure [OF this], of world0]
  show ?thesis
    by (simp add: main_primal_dual_def after_call_def world0_def start_simps
        env_failing_at_once_def env_converging_def trajectory_def guess_def ocp_set_eps_def)
qed

lemma main_failing_later:
  "main_primal_dual env_failing_later =
     Some (\<lparr> clock = 4, calls = [(guess, \<lparr> ocp_eps = 1 \<rparr>), (sol_ok, \<lparr> ocp_eps = 1 / 2 \<rparr>)],
             files = [] \<rparr>,
           Inl (Exception ''Primal-dual Goddard problem failed before convergence''))"
proof -
  let ?env = env_failing_later
  let ?s0 = "start ?env"
  have s0: "bvp_sol ?s0 = guess" "ocp ?s0 = \<lparr> ocp_eps = 1 \<rparr>"
    by (simp_all add: start_simps env_failing_later_def env_converging_def trajectory_def
        guess_def ocp_set_eps_def)
  have sv: "solve_at ?env ?s0 = (sol_ok, \<lparr> success = True \<rparr>)"
    by (simp add: solve_at_def env_failing_later_def start_simps ocp_set_eps_def)
  obtain q where q: "append_sequences ?env (stepped ?env world0 ?s0) = Inr q"
    using append_sequences_ok [of "stepped ?env world0 ?s0" ?env]
    by (auto simp: stepped_def sv sol_ok_def)
  define s1 where "s1 = (stepped ?env world0 ?s0)\<lparr>seqs := q, iter := iter ?s0 + 1\<rparr>"
  have b0: "loop_body ?env world0 ?s0 = (after_call world0 ?s0, Inr s1)"
    by (simp add: loop_body_unfold sv q s1_def)
  have s1: "\<not> convergence s1" "bvp_sol s1 = sol_ok" "ocp s1 = \<lparr> ocp_eps = 1 / 2 \<rparr>"
    by (simp_all add: s1_def stepped_def start_simps sv ocp_set_eps_def)
  have "\<not> success (snd (solve_at ?env s1))"
    unfolding solve_at_def s1 by (simp add: env_failing_later_def)
  from while_loop_raise [OF s1(1) loop_body_failure [OF this], of "after_call world0 ?s0"]
    while_loop_again [OF start_simps(4) b0]
  show ?thesis
    by (simp add: main_primal_dual_def after_call_def world0_def s0 s1)
qed

theorem inner_failure_surfaces_as_exception_witness:
  "\<exists>w r. main_primal_dual env_failing_later = Some (w, r)
     \<and> r = Inl (Exception ''Primal-dual Goddard problem failed before convergence'')
     \<and> files w = [] \<and> last (calls w) = (sol_ok, \<lparr> ocp_eps = 1 / 2 \<rparr>)"
proof -
  have "\<not> success (snd (solve env_failing_later driver_options sol_ok \<lparr> ocp_eps = 1 / 2 \<rparr>))"
    by (simp add: env_failing_later_def)
  from inner_failure_surfaces_as_exception [OF main_failing_later _ this]
  show ?thesis
    by (simp add: main_failing_later)
qed

text \<open>
  C3 as stated fails. Two runs, one whose first solve fails (at \<open>eps = 1\<close>, on the initial
  guess) and one whose second solve fails (at \<open>eps = 1/2\<close>, on the trajectory of the first
  solve), raise the same value: the exception holds neither the last successful
  trajectory nor the current \<open>eps\<close>.
\<close>

theorem failure_carries_no_payload:
  "raised env_failing_at_once =
     Some (Exception ''Primal-dual Goddard problem failed before convergence'')
   \<and> raised env_failing_later =
     Some (Exception ''Primal-dual Goddard problem failed before convergence'')
   \<and> solver_inputs env_failing_at_once = [(guess, 1)]
   \<and> solver_inputs env_failing_later = [(guess, 1), (sol_ok, 1 / 2)]
   \<and> last (solver_inputs env_failing_at_once) \<noteq> last (solver_inputs env_failing_later)"
  by (simp add: raised_def solver_inputs_def main_failing_at_once main_failing_later)

text \<open>
  C9. A run of the loop that starts with \<open>convergence\<close> unset calls the solver at least
  once, first on the trajectory and contract it starts with; when \<open>eps \<le> tol\<close> holds at
  the start it ends after exactly that one call. \<open>main_primal_dual\<close> always ends, and has
  called the solver on the initial trajectory.
\<close>

theorem loop_solves_at_least_once:
  assumes "\<not> convergence s"
  shows "(\<forall>w' r. while_loop env w s = Some (w', r) \<longrightarrow>
            (\<exists>cs. calls w' = calls w @ (bvp_sol s, ocp s) # cs))
     \<and> (eps s \<le> tol s \<longrightarrow>
            (\<exists>w' r. while_loop env w s = Some (w', r)
               \<and> calls w' = calls w @ [(bvp_sol s, ocp s)]))
     \<and> (\<exists>w' r cs. main_primal_dual env = Some (w', r)
            \<and> calls w' = (bvp_sol (start env), ocp (start env)) # cs)"
proof (intro conjI allI impI)
  fix w' r
  assume "while_loop env w s = Some (w', r)"
  from while_loop_calls [OF this] obtain cs where
    cs: "calls w' = calls w @ cs" "calls_inv env s r cs"
    by blast
  from cs(2) assms have "cs \<noteq> []" "hd cs = (bvp_sol s, ocp s)"
    by (simp_all add: calls_inv_def)
  then have "cs = (bvp_sol s, ocp s) # tl cs"
    by (cases cs) simp_all
  with cs(1) show "\<exists>cs. calls w' = calls w @ (bvp_sol s, ocp s) # cs"
    by metis
next
  assume le: "eps s \<le> tol s"
  obtain w1 r1 where b: "loop_body env w s = (w1, r1)"
    by (cases "loop_body env w s")
  have w1: "w1 = after_call w s"
    using fst_loop_body [of env w s] b by simp
  have "\<exists>r. while_loop env w s = Some (w1, r)"
  proof (cases r1)
    case (Inl e)
    with while_loop_raise [OF assms] b show ?thesis by blast
  next
    case (Inr s1)
    from loop_body_Inr [OF b [unfolded Inr]] le have "convergence s1"
      by (auto simp: stepped_def)
    from while_loop_done [OF this] while_loop_again [OF assms b [unfolded Inr]]
    show ?thesis by simp
  qed
  then show "\<exists>w' r. while_loop env w s = Some (w', r) \<and> calls w' = calls w @ [(bvp_sol s, ocp s)]"
    by (auto simp: w1 after_call_def)
next
  from main_terminates obtain w' r where m: "main_primal_dual env = Some (w', r)"
    by blast
  have "\<exists>cs. calls w' = (bvp_sol (start env), ocp (start env)) # cs"
    using m
  proof (cases rule: main_cases)
    case (raise e)
    from while_loop_calls [OF raise(1)] obtain cs where
      cs: "calls w' = cs" "calls_inv env (start env) (Inl e) cs"
      by (auto simp: world0_simps)
    from cs(2) have "cs \<noteq> []" "hd cs = (bvp_sol (start env), ocp (start env))"
      by (simp_all add: calls_inv_def start_simps(4))
    then have "cs = (bvp_sol (start env), ocp (start env)) # tl cs"
      by (cases cs) simp_all
    with cs(1) show ?thesis by metis
  next
    case (return w0 s1)
    from while_loop_calls [OF return(1)] obtain cs where
      cs: "calls w0 = cs" "calls_inv env (start env) (Inr s1) cs"
      by (auto simp: world0_simps)
    from cs(2) have "cs \<noteq> []" "hd cs = (bvp_sol (start env), ocp (start env))"
      by (simp_all add: calls_inv_def start_simps(4))
    then have "cs = (bvp_sol (start env), ocp (start env)) # tl cs"
      by (cases cs) simp_all
    moreover have "calls w' = calls w0"
      using calls_finish [of env w0 s1] return(2) by simp
    ultimately show ?thesis using cs(1) by metis
  qed
  with m show "\<exists>w' r cs. main_primal_dual env = Some (w', r)
            \<and> calls w' = (bvp_sol (start env), ocp (start env)) # cs"
    by blast
qed

theorem loop_solves_at_least_once_witness:
  "\<exists>w' r. while_loop env_converging world0 ((start env_converging)\<lparr>tol := 2\<rparr>) = Some (w', r)
     \<and> calls w' = [(guess, \<lparr> ocp_eps = 1 \<rparr>)]"
proof -
  let ?s = "(start env_converging)\<lparr>tol := 2\<rparr>"
  have n: "\<not> convergence ?s" and le: "eps ?s \<le> tol ?s"
    by (simp_all add: start_simps)
  from loop_solves_at_least_once [OF n, of env_converging world0] le
  have "\<exists>w' r. while_loop env_converging world0 ?s = Some (w', r)
     \<and> calls w' = calls world0 @ [(bvp_sol ?s, ocp ?s)]"
    by blast
  moreover have "bvp_sol ?s = guess"
    by (simp add: bvp_sol_start_converging)
  moreover have "ocp ?s = \<lparr> ocp_eps = 1 \<rparr>"
    by (simp add: start_simps ocp_set_eps_def env_converging_def)
  ultimately show ?thesis
    by (simp add: world0_simps)
qed

end
